theory Spec2Isabelle
  imports
    Complex_Main
    "HOL-Library.Word"
    "HOL-Library.Char_ord"
    "HOL-Library.List_Lexorder"
begin

unbundle bit_operations_syntax

section \<open>Data model\<close>

text \<open>
  The ten columns a fact row shares with a raw row. A missing value (\<open>NaN\<close>, \<open>NaT\<close>,
  \<open>pd.NA\<close>) is \<open>None\<close>. Money columns are \<open>float64\<close> in the source; the model computes
  with exact rationals.
\<close>

record sale_measures =
  transaction_id :: "int option"
  final_quantity :: "int option"
  total_revenue :: "rat option"
  price_reductions :: "rat option"
  refunds :: "rat option"
  final_revenue :: "rat option"
  sales_tax :: "rat option"
  overall_revenue :: "rat option"
  refunded_item_count :: "int option"
  purchased_item_count :: "int option"

text \<open>
  A row of the raw export after \<open>load_raw_data\<close>, with the column map of the configuration
  resolved: each mapped column is a field. \<open>date\<close> is a \<open>Timestamp\<close>, in nanoseconds since
  1970-01-01. The three \<open>chk_\<close> fields are the transient columns that \<open>apply_validations\<close>
  adds: \<open>None\<close> when the frame has no such column, \<open>Some v\<close> when it has one holding \<open>v\<close>.
\<close>

record raw_record = sale_measures +
  buyer_id :: "int option"
  item_id :: "int option"
  item_code :: "string option"
  item_name :: "string option"
  category :: "string option"
  version :: "string option"
  date :: "int option"
  chk_rev1 :: "rat option option"
  chk_rev2 :: "rat option option"
  chk_qty :: "int option option"

text \<open>
  A \<open>DataFrame\<close> is the list of its rows in order, each under its index label; boolean
  indexing \<open>df[mask]\<close> keeps the labels of the rows it keeps.
\<close>

type_synonym frame = "(nat \<times> raw_record) list"

text \<open>What \<open>pd.read_csv\<close> builds: the rows under the labels \<open>0, 1, 2, ...\<close>.\<close>

definition read_csv :: "raw_record list \<Rightarrow> frame" where
  "read_csv rs = zip [0 ..< length rs] rs"

text \<open>
  The errors of the pipeline. All three are \<open>ValueError\<close> in the source; the constructor
  says which \<open>raise\<close> it is.
\<close>

datatype etl_error =
    NoValidDates
  | UnsupportedDimension
  | DropRateExceeded rat rat

text \<open>The row with every column missing, from which the sample rows are built.\<close>

definition blank_record :: raw_record where
  "blank_record = \<lparr>transaction_id = None, final_quantity = None, total_revenue = None,
     price_reductions = None, refunds = None, final_revenue = None, sales_tax = None,
     overall_revenue = None, refunded_item_count = None, purchased_item_count = None,
     buyer_id = None, item_id = None, item_code = None, item_name = None, category = None,
     version = None, date = None, chk_rev1 = None, chk_rev2 = None, chk_qty = None\<rparr>"

section \<open>Date dimension: \<open>build_date_dimension\<close>\<close>

record date_dim_row =
  full_date :: int
  year :: int
  quarter :: int
  month :: int
  day :: int
  is_weekend :: bool

text \<open>
  A \<open>Timestamp\<close> counts nanoseconds; \<open>Timestamp.date()\<close> is the day it falls on, counted
  in days since 1970-01-01, and \<open>pd.date_range\<close> gives the midnight of each day.
\<close>

definition ns_per_day :: int where
  "ns_per_day = 86400000000000"

definition to_date :: "int \<Rightarrow> int" where
  "to_date ts = ts div ns_per_day"

definition to_timestamp :: "int \<Rightarrow> int" where
  "to_timestamp d = d * ns_per_day"

text \<open>Year, month and day of a day count, in the proleptic Gregorian calendar.\<close>

definition civil :: "int \<Rightarrow> int \<times> int \<times> int" where
  "civil d =
     (let z = d + 719468;
          era = z div 146097;
          doe = z - era * 146097;
          yoe = (doe - doe div 1460 + doe div 36524 - doe div 146096) div 365;
          y = yoe + era * 400;
          doy = doe - (365 * yoe + yoe div 4 - yoe div 100);
          mp = (5 * doy + 2) div 153;
          dd = doy - (153 * mp + 2) div 5 + 1;
          m = (if mp < 10 then mp + 3 else mp - 9)
      in (if m \<le> 2 then y + 1 else y, m, dd))"

text \<open>\<open>weekday\<close> counts from Monday = 0 (1970-01-01 was a Thursday); \<open>isoweekday\<close> from Monday = 1.\<close>

definition weekday :: "int \<Rightarrow> int" where
  "weekday d = (d + 3) mod 7"

definition isoweekday :: "int \<Rightarrow> int" where
  "isoweekday d = weekday d + 1"

definition date_row :: "int \<Rightarrow> date_dim_row" where
  "date_row d =
     (case civil d of (y, m, dd) \<Rightarrow>
        \<lparr>full_date = to_timestamp d, year = y, quarter = (m - 1) div 3 + 1, month = m,
         day = dd, is_weekend = (weekday d \<ge> 5)\<rparr>)"

text \<open>\<open>Series.dropna()\<close>\<close>

definition dropna :: "'a option list \<Rightarrow> 'a list" where
  "dropna xs = concat (map (\<lambda>x. case x of None \<Rightarrow> [] | Some v \<Rightarrow> [v]) xs)"

definition date_range :: "int \<Rightarrow> int \<Rightarrow> int list" where
  "date_range start end = [start..end]"

text \<open>
  The minimum and maximum of the non-missing dates are folded over the series; an empty
  series raises.
\<close>

definition build_date_dimension :: "frame \<Rightarrow> etl_error + date_dim_row list" where
  "build_date_dimension df =
     (case dropna (map (\<lambda>(i, r). date r) df) of
        [] \<Rightarrow> Inl NoValidDates
      | t # ts \<Rightarrow>
          (let min_date = to_date (fold min ts t);
               max_date = to_date (fold max ts t);
               dates = date_range min_date max_date
           in Inr (map date_row dates)))"


text \<open>
  The frame of \<open>test_build_date_dimension_normal_case\<close> (2025-11-02 and 2025-11-10) and a
  frame whose dates are all missing.
\<close>

definition two_dates :: frame where
  "two_dates = read_csv [blank_record\<lparr>date := Some 1762041600000000000\<rparr>,
                         blank_record\<lparr>date := Some 1762732800000000000\<rparr>]"

definition no_dates :: frame where
  "no_dates = read_csv [blank_record, blank_record]"

section \<open>Identifier cleaning in \<open>load_raw_data\<close>\<close>







section \<open>Canonicalizer: the category column in \<open>load_dimension_table\<close>\<close>

text \<open>
  \<open>.str.strip().str.replace(r"\s+", " ", regex=True).str.title()\<close> on ASCII text. The
  whitespace characters are those of \<open>str.isspace\<close> (tab, line feed, vertical tab, form
  feed, carriage return, the four separators \<open>0x1C\<close> to \<open>0x1F\<close>, space), which \<open>\s\<close> matches
  too; the cased characters are the letters \<open>A-Z\<close> and \<open>a-z\<close>. A character above 127 is
  taken as it is: the case mappings of Unicode are not modelled.
\<close>

definition is_space :: "char \<Rightarrow> bool" where
  "is_space c = ((9 \<le> (of_char c :: nat) \<and> (of_char c :: nat) \<le> 13)
                 \<or> (28 \<le> (of_char c :: nat) \<and> (of_char c :: nat) \<le> 32))"

definition is_upper :: "char \<Rightarrow> bool" where
  "is_upper c = (65 \<le> (of_char c :: nat) \<and> (of_char c :: nat) \<le> 90)"

definition is_lower :: "char \<Rightarrow> bool" where
  "is_lower c = (97 \<le> (of_char c :: nat) \<and> (of_char c :: nat) \<le> 122)"

definition is_cased :: "char \<Rightarrow> bool" where
  "is_cased c = (is_upper c \<or> is_lower c)"

definition to_upper :: "char \<Rightarrow> char" where
  "to_upper c = (if is_lower c then char_of (of_char c - 32 :: nat) else c)"

definition to_lower :: "char \<Rightarrow> char" where
  "to_lower c = (if is_upper c then char_of (of_char c + 32 :: nat) else c)"

text \<open>\<open>str.strip()\<close>: the whitespace at both ends is dropped.\<close>

definition lstrip :: "string \<Rightarrow> string" where
  "lstrip s = dropWhile is_space s"

definition rstrip :: "string \<Rightarrow> string" where
  "rstrip s = rev (dropWhile is_space (rev s))"

definition strip :: "string \<Rightarrow> string" where
  "strip s = rstrip (lstrip s)"

text \<open>\<open>re.sub(r"\s+", " ", s)\<close>: every maximal run of whitespace becomes one space.\<close>

function collapse_ws :: "string \<Rightarrow> string" where
  "collapse_ws [] = []"
| "collapse_ws (c # cs) =
     (if is_space c then CHR '' '' # collapse_ws (dropWhile is_space cs)
      else c # collapse_ws cs)"
  by pat_completeness auto
termination
  by (relation "measure length") (auto simp: length_dropWhile_le less_Suc_eq_le)

text \<open>
  \<open>str.title()\<close>: a cased character is lowered after a cased character and raised
  otherwise; an uncased character is kept.
\<close>

fun title_from :: "bool \<Rightarrow> string \<Rightarrow> string" where
  "title_from previous_is_cased [] = []"
| "title_from previous_is_cased (c # cs) =
     (if previous_is_cased then to_lower c else to_upper c) # title_from (is_cased c) cs"

definition title :: "string \<Rightarrow> string" where
  "title s = title_from False s"

definition canon_category :: "string \<Rightarrow> string" where
  "canon_category s = title (collapse_ws (strip s))"



section \<open>Item and buyer dimensions: \<open>load_dimension_table\<close>\<close>

text \<open>A row of the item dimension: the five columns \<open>cols\<close> of the source.\<close>

record item_dim_row =
  dim_item_code :: "string option"
  dim_item_id :: "int option"
  dim_item_name :: "string option"
  dim_category :: "string option"
  dim_version :: "string option"

text \<open>
  The part of \<open>config["pipeline"]["canonicalize"]\<close> the function reads: the \<open>category\<close>
  toggle and the strategy \<open>item_attributes\<close>, compared with \<open>"mode"\<close>.
\<close>

record pipeline_config =
  canonicalize_category :: bool
  item_attributes :: string

text \<open>
  \<open>df[[cmap[c] for c in cols]]\<close> with the columns renamed; \<open>item_id\<close> is already numeric,
  so \<open>pd.to_numeric\<close> keeps it. Then the category is canonicalized when the toggle is on; a
  missing category stays missing.
\<close>

definition select_item_columns :: "raw_record \<Rightarrow> item_dim_row" where
  "select_item_columns r =
     \<lparr>dim_item_code = item_code r, dim_item_id = item_id r, dim_item_name = item_name r,
      dim_category = category r, dim_version = version r\<rparr>"

definition item_frame :: "pipeline_config \<Rightarrow> frame \<Rightarrow> item_dim_row list" where
  "item_frame cfg df =
     (let item_df = map (\<lambda>(i, r). select_item_columns r) df
      in if canonicalize_category cfg
         then map (\<lambda>r. r\<lparr>dim_category := map_option canon_category (dim_category r)\<rparr>) item_df
         else item_df)"

text \<open>
  \<open>Series.mode()\<close>: the most frequent of the values that are not missing, every one of them
  when several are as frequent, in sorted order (strings by code point).
\<close>

definition series_mode :: "('a::linorder) option list \<Rightarrow> 'a list" where
  "series_mode series =
     (let vs = dropna series;
          top = fold max (map (count_list vs) vs) 0
      in sort (remdups (filter (\<lambda>v. count_list vs v = top) vs)))"

text \<open>
  The \<open>canon\<close> of the source: \<open>mode.iloc[0]\<close>, and \<open>series.iloc[0]\<close> when there is no mode
  (every value of the group is missing; a group is never empty).
\<close>

definition canon :: "('a::linorder) option list \<Rightarrow> 'a option" where
  "canon series =
     (case series_mode series of
        m # ms \<Rightarrow> Some m
      | [] \<Rightarrow> (case series of x # xs \<Rightarrow> x | [] \<Rightarrow> None))"

text \<open>The aggregation \<open>"first"\<close> of a group: its first value that is not missing.\<close>

definition first_valid :: "'a option list \<Rightarrow> 'a option" where
  "first_valid series = (case dropna series of v # vs \<Rightarrow> Some v | [] \<Rightarrow> None)"

text \<open>
  \<open>groupby("item_code")\<close>: one group per item code that is not missing, in sorted order of
  the codes, each holding its rows in the frame's order.
\<close>

definition group_keys :: "item_dim_row list \<Rightarrow> string list" where
  "group_keys item_df = sort (remdups (dropna (map dim_item_code item_df)))"

definition group_rows :: "string \<Rightarrow> item_dim_row list \<Rightarrow> item_dim_row list" where
  "group_rows k item_df = filter (\<lambda>r. dim_item_code r = Some k) item_df"

definition agg :: "string \<Rightarrow> item_dim_row list \<Rightarrow> item_dim_row" where
  "agg k g =
     \<lparr>dim_item_code = Some k,
      dim_item_id = first_valid (map dim_item_id g),
      dim_item_name = canon (map dim_item_name g),
      dim_category = canon (map dim_category g),
      dim_version = canon (map dim_version g)\<rparr>"

text \<open>\<open>DataFrame.drop_duplicates()\<close>: of equal rows the first is kept.\<close>

primrec drop_duplicates_from :: "'a list \<Rightarrow> 'a list \<Rightarrow> 'a list" where
  "drop_duplicates_from seen [] = []"
| "drop_duplicates_from seen (x # xs) =
     (if x \<in> set seen then drop_duplicates_from seen xs
      else x # drop_duplicates_from (x # seen) xs)"

definition drop_duplicates :: "'a list \<Rightarrow> 'a list" where
  "drop_duplicates xs = drop_duplicates_from [] xs"

text \<open>
  The branch \<open>dim == "item"\<close>. It returns the count it warned with (\<open>None\<close> when it logged
  no warning) and the dimension.
\<close>

definition load_item_dimension :: "pipeline_config \<Rightarrow> frame \<Rightarrow> nat option \<times> item_dim_row list" where
  "load_item_dimension cfg df =
     (let item_df = item_frame cfg df
      in if item_attributes cfg = ''mode''
         then
           (let grouped = map (\<lambda>k. agg k (group_rows k item_df)) (group_keys item_df);
                before = length grouped;
                kept = filter (\<lambda>r. dim_item_id r \<noteq> None) grouped;
                dropped = before - length kept
            in (if dropped \<noteq> 0 then Some dropped else None, kept))
         else (None, drop_duplicates (filter (\<lambda>r. dim_item_id r \<noteq> None) item_df)))"

text \<open>The branch \<open>dim == "buyer"\<close>.\<close>

definition load_buyer_dimension :: "frame \<Rightarrow> nat option \<times> int list" where
  "load_buyer_dimension df =
     (let buyers = drop_duplicates (map (\<lambda>(i, r). buyer_id r) df);
          before = length buyers;
          kept = dropna buyers;
          dropped = before - length kept
      in (if dropped \<noteq> 0 then Some dropped else None, kept))"

datatype dimension = ItemDimension "item_dim_row list" | BuyerDimension "int list"

definition load_dimension_table ::
  "frame \<Rightarrow> pipeline_config \<Rightarrow> string \<Rightarrow> etl_error + (nat option \<times> dimension)" where
  "load_dimension_table df cfg dm =
     (if dm = ''item'' then
        (case load_item_dimension cfg df of (w, rows) \<Rightarrow> Inr (w, ItemDimension rows))
      else if dm = ''buyer'' then
        (case load_buyer_dimension df of (w, rows) \<Rightarrow> Inr (w, BuyerDimension rows))
      else Inl UnsupportedDimension)"

text \<open>
  The frame of \<open>test_load_dimension_table_with_mode_canonicalization\<close>, and a configuration
  with the category toggle on and a given strategy.
\<close>

definition item :: "string \<Rightarrow> int option \<Rightarrow> string \<Rightarrow> string \<Rightarrow> string \<Rightarrow> raw_record" where
  "item code ident name cat ver =
     blank_record\<lparr>item_code := Some code, item_id := ident, item_name := Some name,
       category := Some cat, version := Some ver\<rparr>"

definition test_items :: frame where
  "test_items = read_csv [item ''A'' (Some 1) ''item A'' '' electronics '' ''v1'',
                          item ''A'' (Some 1) ''ITEM A'' ''Electronics'' ''v1'',
                          item ''B'' (Some 2) ''item B'' ''home APPLIANCES'' ''v2'']"

definition strategy :: "string \<Rightarrow> pipeline_config" where
  "strategy s = \<lparr>canonicalize_category = True, item_attributes = s\<rparr>"

text \<open>
  The tie-break as the specification words it, for comparison with \<open>canon\<close>: of the most
  frequent values, the one met first in row order.
\<close>

definition first_seen_mode :: "'a option list \<Rightarrow> 'a option" where
  "first_seen_mode series =
     (let vs = dropna series;
          top = fold max (map (count_list vs) vs) 0
      in case filter (\<lambda>v. count_list vs v = top) vs of m # ms \<Rightarrow> Some m | [] \<Rightarrow> None)"



text \<open>
  What \<open>canon\<close> returns for a series: missing when every value is missing, and otherwise a
  value of the series that no value is more frequent than and that is the smallest of the
  values as frequent as it.
\<close>

definition smallest_mode :: "('a::linorder) option list \<Rightarrow> 'a option \<Rightarrow> bool" where
  "smallest_mode series res =
     (case res of
        None \<Rightarrow> dropna series = []
      | Some m \<Rightarrow>
          m \<in> set (dropna series)
          \<and> (\<forall>v \<in> set (dropna series).
                count_list (dropna series) v \<le> count_list (dropna series) m)
          \<and> (\<forall>v \<in> set (dropna series).
                count_list (dropna series) v = count_list (dropna series) m \<longrightarrow> m \<le> v))"

section \<open>Validator: \<open>apply_validations\<close>\<close>

record checks =
  revenue_balance :: bool
  overall_balance :: bool
  quantity_balance :: bool
  refunded_nonpositive :: bool

record validation_config =
  checks :: checks
  tolerance :: rat
  max_error_rate :: "rat option"

text \<open>Column arithmetic: a missing operand gives a missing result.\<close>

definition add_col :: "('a::plus) option \<Rightarrow> 'a option \<Rightarrow> 'a option" where
  "add_col a b = (case (a, b) of (Some x, Some y) \<Rightarrow> Some (x + y) | _ \<Rightarrow> None)"

text \<open>\<open>(a - b).abs() <= tolerance\<close>; a comparison with a missing value is false.\<close>

definition within_tolerance :: "rat option \<Rightarrow> rat option \<Rightarrow> rat \<Rightarrow> bool" where
  "within_tolerance a b tol =
     (case (a, b) of (Some x, Some y) \<Rightarrow> \<bar>x - y\<bar> \<le> tol | _ \<Rightarrow> False)"

definition eq_col :: "int option \<Rightarrow> int option \<Rightarrow> bool" where
  "eq_col a b = (case (a, b) of (Some x, Some y) \<Rightarrow> x = y | _ \<Rightarrow> False)"

definition nonpositive :: "int option \<Rightarrow> bool" where
  "nonpositive a = (case a of Some x \<Rightarrow> x \<le> 0 | None \<Rightarrow> False)"

text \<open>The column a check reads back after writing it; it is always present there.\<close>

definition col :: "'a option option \<Rightarrow> 'a option" where
  "col c = (case c of Some v \<Rightarrow> v | None \<Rightarrow> None)"

definition check_revenue_balance :: "rat \<Rightarrow> frame \<Rightarrow> frame" where
  "check_revenue_balance tol df =
     (let df1 = map (\<lambda>(i, r). (i, r\<lparr>chk_rev1 :=
                  Some (add_col (add_col (total_revenue r) (price_reductions r)) (refunds r))\<rparr>)) df
      in filter (\<lambda>(i, r). within_tolerance (final_revenue r) (col (chk_rev1 r)) tol) df1)"

definition check_overall_balance :: "rat \<Rightarrow> frame \<Rightarrow> frame" where
  "check_overall_balance tol df =
     (let df1 = map (\<lambda>(i, r). (i, r\<lparr>chk_rev2 :=
                  Some (add_col (final_revenue r) (sales_tax r))\<rparr>)) df
      in filter (\<lambda>(i, r). within_tolerance (overall_revenue r) (col (chk_rev2 r)) tol) df1)"

definition check_quantity_balance :: "frame \<Rightarrow> frame" where
  "check_quantity_balance df =
     (let df1 = map (\<lambda>(i, r). (i, r\<lparr>chk_qty :=
                  Some (add_col (purchased_item_count r) (refunded_item_count r))\<rparr>)) df
      in filter (\<lambda>(i, r). eq_col (final_quantity r) (col (chk_qty r))) df1)"

definition check_refunded_nonpositive :: "frame \<Rightarrow> frame" where
  "check_refunded_nonpositive df = filter (\<lambda>(i, r). nonpositive (refunded_item_count r)) df"

text \<open>The four \<open>if checks.get(...)\<close> blocks, in the order of the source.\<close>

definition run_checks :: "validation_config \<Rightarrow> frame \<Rightarrow> frame" where
  "run_checks cfg df =
     (let df1 = (if revenue_balance (checks cfg)
                 then check_revenue_balance (tolerance cfg) df else df);
          df2 = (if overall_balance (checks cfg)
                 then check_overall_balance (tolerance cfg) df1 else df1);
          df3 = (if quantity_balance (checks cfg) then check_quantity_balance df2 else df2)
      in if refunded_nonpositive (checks cfg) then check_refunded_nonpositive df3 else df3)"

definition dropped :: "validation_config \<Rightarrow> frame \<Rightarrow> int" where
  "dropped cfg df = int (length df) - int (length (run_checks cfg df))"

definition drop_rate :: "validation_config \<Rightarrow> frame \<Rightarrow> rat" where
  "drop_rate cfg df = of_int (dropped cfg df) / of_int (max (int (length df)) 1)"


text \<open>\<open>df.drop(columns=[c for c in df.columns if c.startswith("chk_")])\<close>\<close>

definition drop_chk_columns :: "raw_record \<Rightarrow> raw_record" where
  "drop_chk_columns r = r\<lparr>chk_rev1 := None, chk_rev2 := None, chk_qty := None\<rparr>"


text \<open>
  What the four blocks decide for one row, read off the row's own columns: the row survives
  every enabled check. A disabled check decides nothing.
\<close>

definition passes :: "validation_config \<Rightarrow> raw_record \<Rightarrow> bool" where
  "passes cfg r =
     ((if revenue_balance (checks cfg)
       then within_tolerance (final_revenue r)
              (add_col (add_col (total_revenue r) (price_reductions r)) (refunds r)) (tolerance cfg)
       else True) \<and>
      (if overall_balance (checks cfg)
       then within_tolerance (overall_revenue r) (add_col (final_revenue r) (sales_tax r)) (tolerance cfg)
       else True) \<and>
      (if quantity_balance (checks cfg)
       then eq_col (final_quantity r) (add_col (purchased_item_count r) (refunded_item_count r))
       else True) \<and>
      (if refunded_nonpositive (checks cfg) then nonpositive (refunded_item_count r) else True))"

text \<open>The frame with the transient columns dropped from every row.\<close>

definition cleaned :: "frame \<Rightarrow> frame" where
  "cleaned df = map (\<lambda>(i, r). (i, drop_chk_columns r)) df"

subsection \<open>Sample data\<close>

text \<open>
  The two rows of \<open>test_apply_validations_normal_case\<close> (the second fails the quantity
  balance), and configurations with every check enabled or disabled.
\<close>

definition measures ::
  "rat \<Rightarrow> rat \<Rightarrow> rat \<Rightarrow> rat \<Rightarrow> rat \<Rightarrow> rat \<Rightarrow> int \<Rightarrow> int \<Rightarrow> int \<Rightarrow> raw_record" where
  "measures tr pr rf fr tx ov fq pq rq =
     blank_record\<lparr>total_revenue := Some tr, price_reductions := Some pr,
       refunds := Some rf, final_revenue := Some fr, sales_tax := Some tx,
       overall_revenue := Some ov, final_quantity := Some fq,
       purchased_item_count := Some pq, refunded_item_count := Some rq\<rparr>"

definition all_checks :: "rat \<Rightarrow> rat option \<Rightarrow> validation_config" where
  "all_checks tol m =
     \<lparr>checks = \<lparr>revenue_balance = True, overall_balance = True, quantity_balance = True,
                 refunded_nonpositive = True\<rparr>,
      tolerance = tol, max_error_rate = m\<rparr>"

definition two_rows :: frame where
  "two_rows = read_csv [measures 100 (-10) 0 90 9 99 10 10 0, measures 100 (-10) 5 95 9 104 9 10 1]"

definition no_checks :: "rat \<Rightarrow> rat option \<Rightarrow> validation_config" where
  "no_checks tol m =
     \<lparr>checks = \<lparr>revenue_balance = False, overall_balance = False, quantity_balance = False,
                 refunded_nonpositive = False\<rparr>,
      tolerance = tol, max_error_rate = m\<rparr>"

section \<open>Reconciler: the dimension loads of \<open>run_etl\<close>\<close>

text \<open>
  \<open>left.merge(right, how="left")\<close>: every left row in order, once per right row with its
  key, in the right frame's order, or once alone when no right row has its key. Missing
  keys match each other, as \<open>None = None\<close> does.
\<close>


definition merge_left :: "('a \<Rightarrow> 'k) \<Rightarrow> ('b \<Rightarrow> 'k) \<Rightarrow> 'a list \<Rightarrow> 'b list \<Rightarrow> ('a \<times> 'b option) list" where
  "merge_left left_on right_on left right =
     concat (map (\<lambda>a. case filter (\<lambda>b. right_on b = left_on a) right of
                          [] \<Rightarrow> [(a, None)]
                        | ms \<Rightarrow> map (\<lambda>b. (a, Some b)) ms) left)"

text \<open>The \<open>_merge\<close> column of \<open>indicator=True\<close>; a left merge has no \<open>right_only\<close> row.\<close>

datatype merge_indicator = left_only | both

definition indicator :: "'b option \<Rightarrow> merge_indicator" where
  "indicator m = (case m of None \<Rightarrow> left_only | Some b \<Rightarrow> both)"

text \<open>
  \<open>dim.merge(existing, on=key, how="left", indicator=True).query("_merge ==
  'left_only'").drop(columns=["_merge"])\<close>, where \<open>existing\<close> is the key column of the
  persisted table.
\<close>

definition new_rows :: "('r \<Rightarrow> 'k) \<Rightarrow> 'r list \<Rightarrow> 'k list \<Rightarrow> 'r list" where
  "new_rows on cands existing =
     map fst (filter (\<lambda>(r, m). indicator m = left_only) (merge_left on (\<lambda>k. k) cands existing))"

text \<open>
  \<open>to_sql(..., if_exists="append")\<close>. The reconciler reads back the natural-key column
  only, so a table is modelled by the rows appended to it.
\<close>

definition to_sql :: "'r list \<Rightarrow> 'r list \<Rightarrow> 'r list" where
  "to_sql table rows = table @ rows"

definition reconcile :: "('r \<Rightarrow> 'k) \<Rightarrow> 'r list \<Rightarrow> 'r list \<Rightarrow> 'r list \<times> 'r list" where
  "reconcile on cands table =
     (let existing = map on table;
          new = new_rows on cands existing
      in (new, if new \<noteq> [] then to_sql table new else table))"

text \<open>The three dimension tables of the warehouse.\<close>

record warehouse =
  dim_date_table :: "date_dim_row list"
  dim_item_table :: "item_dim_row list"
  dim_buyer_table :: "int list"

definition load_dimensions ::
  "date_dim_row list \<Rightarrow> item_dim_row list \<Rightarrow> int list \<Rightarrow> warehouse
   \<Rightarrow> (date_dim_row list \<times> item_dim_row list \<times> int list) \<times> warehouse" where
  "load_dimensions dim_date dim_item dim_buyer wh =
     (let (new_dates, dates') = reconcile full_date dim_date (dim_date_table wh);
          (new_items, items') = reconcile dim_item_code dim_item (dim_item_table wh);
          (new_buyers, buyers') = reconcile (\<lambda>b. b) dim_buyer (dim_buyer_table wh)
      in ((new_dates, new_items, new_buyers),
          \<lparr>dim_date_table = dates', dim_item_table = items', dim_buyer_table = buyers'\<rparr>))"

section \<open>Fact resolver: \<open>load_fact_sales\<close>\<close>

text \<open>
  A row of \<open>fact_sales\<close>. The three surrogate keys are missing where the join found no
  dimension row.
\<close>

record fact_row = sale_measures +
  date_key :: "int option"
  item_key :: "int option"
  buyer_key :: "int option"

text \<open>The \<open>pd.DataFrame({...})\<close> of the source, one row of it.\<close>

definition fact_of :: "raw_record \<Rightarrow> int option \<Rightarrow> int option \<Rightarrow> int option \<Rightarrow> fact_row" where
  "fact_of r dk ik bk =
     \<lparr>transaction_id = transaction_id r, final_quantity = final_quantity r,
      total_revenue = total_revenue r, price_reductions = price_reductions r,
      refunds = refunds r, final_revenue = final_revenue r, sales_tax = sales_tax r,
      overall_revenue = overall_revenue r, refunded_item_count = refunded_item_count r,
      purchased_item_count = purchased_item_count r,
      date_key = dk, item_key = ik, buyer_key = bk\<rparr>"

text \<open>
  The dimension tables are given by their natural-key and surrogate-key columns, as
  \<open>dim_date[["full_date", "date_key"]]\<close> and its two siblings are. The three left merges
  add the surrogate keys; the rows with a missing key are counted for the warning; the
  fact rows are built and those with a missing key or transaction id are dropped. The
  function returns the count it warned with (\<open>None\<close> when it logged no warning) and the
  rows it appends to \<open>fact_sales\<close>. It raises nothing.
\<close>

definition load_fact_sales ::
  "frame \<Rightarrow> (int option \<times> int) list \<Rightarrow> (string option \<times> int) list \<Rightarrow> (int option \<times> int) list
   \<Rightarrow> nat option \<times> fact_row list" where
  "load_fact_sales df dim_date dim_item dim_buyer =
     (let df1 = merge_left (\<lambda>r. date r) fst (map snd df) dim_date;
          df2 = merge_left (\<lambda>(r, d). item_code r) fst df1 dim_item;
          df3 = merge_left (\<lambda>((r, d), it). buyer_id r) fst df2 dim_buyer;
          joined = map (\<lambda>(((r, d), it), b).
                         (r, map_option snd d, map_option snd it, map_option snd b)) df3;
          missing = filter (\<lambda>(r, dk, ik, bk). dk = None \<or> ik = None \<or> bk = None) joined;
          warning = (if missing \<noteq> [] then Some (length missing) else None);
          fact = map (\<lambda>(r, dk, ik, bk). fact_of r dk ik bk) joined
      in (warning,
          filter (\<lambda>f. date_key f \<noteq> None \<and> item_key f \<noteq> None \<and> buyer_key f \<noteq> None
                       \<and> transaction_id f \<noteq> None) fact))"

text \<open>The three natural keys of a candidate each name a row of their dimension table.\<close>

definition resolves ::
  "(int option \<times> int) list \<Rightarrow> (string option \<times> int) list \<Rightarrow> (int option \<times> int) list
   \<Rightarrow> raw_record \<Rightarrow> bool" where
  "resolves dim_date dim_item dim_buyer r =
     (map_of dim_date (date r) \<noteq> None \<and> map_of dim_item (item_code r) \<noteq> None
      \<and> map_of dim_buyer (buyer_id r) \<noteq> None)"

text \<open>The frame after the three merges, with the surrogate key of each matched row.\<close>

definition joined ::
  "raw_record list \<Rightarrow> (int option \<times> int) list \<Rightarrow> (string option \<times> int) list \<Rightarrow> (int option \<times> int) list
   \<Rightarrow> (raw_record \<times> int option \<times> int option \<times> int option) list" where
  "joined rs dim_date dim_item dim_buyer =
     map (\<lambda>(((r, d), it), b). (r, map_option snd d, map_option snd it, map_option snd b))
       (merge_left (\<lambda>((r, d), it). buyer_id r) fst
         (merge_left (\<lambda>(r, d). item_code r) fst
           (merge_left (\<lambda>r. date r) fst rs dim_date) dim_item) dim_buyer)"

text \<open>
  Three candidates in the shape of \<open>test_load_fact_sales\<close>, the third with an item code
  that no dimension row has, and the dimension tables of the test.
\<close>

definition sale :: "int \<Rightarrow> string \<Rightarrow> int \<Rightarrow> int \<Rightarrow> raw_record" where
  "sale d code buyer txn =
     (measures 100 0 0 100 10 110 1 1 0)
       \<lparr>date := Some (to_timestamp d), item_code := Some code, buyer_id := Some buyer,
        transaction_id := Some txn\<rparr>"

definition three_sales :: frame where
  "three_sales = read_csv [sale 20394 ''A'' 1 10, sale 20395 ''B'' 2 20, sale 20395 ''C'' 2 30]"

definition sample_dim_date :: "(int option \<times> int) list" where
  "sample_dim_date = [(Some (to_timestamp 20394), 1), (Some (to_timestamp 20395), 2)]"

definition sample_dim_item :: "(string option \<times> int) list" where
  "sample_dim_item = [(Some ''A'', 10), (Some ''B'', 20)]"

definition sample_dim_buyer :: "(int option \<times> int) list" where
  "sample_dim_buyer = [(Some 1, 100), (Some 2, 200)]"

section \<open>Properties of the validator\<close>

lemma drop_chk_upd [simp]:
  "drop_chk_columns (r\<lparr>chk_rev1 := a\<rparr>) = drop_chk_columns r"
  "drop_chk_columns (r\<lparr>chk_rev2 := b\<rparr>) = drop_chk_columns r"
  "drop_chk_columns (r\<lparr>chk_qty := c\<rparr>) = drop_chk_columns r"
  by (simp_all add: drop_chk_columns_def)

lemma passes_upd [simp]:
  "passes cfg (r\<lparr>chk_rev1 := a\<rparr>) = passes cfg r"
  "passes cfg (r\<lparr>chk_rev2 := b\<rparr>) = passes cfg r"
  "passes cfg (r\<lparr>chk_qty := c\<rparr>) = passes cfg r"
  by (simp_all add: passes_def)

lemma cleaned_rev: "cleaned (check_revenue_balance tol df) =
  cleaned (filter (\<lambda>(i, r). within_tolerance (final_revenue r)
              (add_col (add_col (total_revenue r) (price_reductions r)) (refunds r)) tol) df)"
  by (induction df) (auto simp: cleaned_def check_revenue_balance_def col_def)

lemma cleaned_ov: "cleaned (check_overall_balance tol df) =
  cleaned (filter (\<lambda>(i, r). within_tolerance (overall_revenue r) (add_col (final_revenue r) (sales_tax r)) tol) df)"
  by (induction df) (auto simp: cleaned_def check_overall_balance_def col_def)

lemma cleaned_qty: "cleaned (check_quantity_balance df) =
  cleaned (filter (\<lambda>(i, r). eq_col (final_quantity r) (add_col (purchased_item_count r) (refunded_item_count r))) df)"
  by (induction df) (auto simp: cleaned_def check_quantity_balance_def col_def)


lemma cleaned_filter_inv:
  "(\<And>r. p (drop_chk_columns r) = p r) \<Longrightarrow>
   cleaned (filter (\<lambda>(i, r). p r) df) = filter (\<lambda>(i, r). p r) (cleaned df)"
  by (induction df) (auto simp: cleaned_def)

lemma drop_chk_fields [simp]:
  "total_revenue (drop_chk_columns r) = total_revenue r"
  "price_reductions (drop_chk_columns r) = price_reductions r"
  "refunds (drop_chk_columns r) = refunds r"
  "final_revenue (drop_chk_columns r) = final_revenue r"
  "sales_tax (drop_chk_columns r) = sales_tax r"
  "overall_revenue (drop_chk_columns r) = overall_revenue r"
  "final_quantity (drop_chk_columns r) = final_quantity r"
  "purchased_item_count (drop_chk_columns r) = purchased_item_count r"
  "refunded_item_count (drop_chk_columns r) = refunded_item_count r"
  "chk_rev1 (drop_chk_columns r) = None"
  "chk_rev2 (drop_chk_columns r) = None"
  "chk_qty (drop_chk_columns r) = None"
  by (simp_all add: drop_chk_columns_def)

lemma cleaned_ref: "cleaned (check_refunded_nonpositive df) =
  cleaned (filter (\<lambda>(i, r). nonpositive (refunded_item_count r)) df)"
  by (simp add: check_refunded_nonpositive_def)

lemma cleaned_run_checks:
  "cleaned (run_checks cfg df) = filter (\<lambda>(i, r). passes cfg r) (cleaned df)"
proof -
  let ?p1 = "\<lambda>r. within_tolerance (final_revenue r)
              (add_col (add_col (total_revenue r) (price_reductions r)) (refunds r)) (tolerance cfg)"
  let ?p2 = "\<lambda>r. within_tolerance (overall_revenue r) (add_col (final_revenue r) (sales_tax r)) (tolerance cfg)"
  let ?p3 = "\<lambda>r. eq_col (final_quantity r) (add_col (purchased_item_count r) (refunded_item_count r))"
  let ?p4 = "\<lambda>r. nonpositive (refunded_item_count r)"
  have s1: "cleaned (check_revenue_balance (tolerance cfg) d) = filter (\<lambda>(i, r). ?p1 r) (cleaned d)" for d
    by (simp add: cleaned_rev cleaned_filter_inv)
  have s2: "cleaned (check_overall_balance (tolerance cfg) d) = filter (\<lambda>(i, r). ?p2 r) (cleaned d)" for d
    by (simp add: cleaned_ov cleaned_filter_inv)
  have s3: "cleaned (check_quantity_balance d) = filter (\<lambda>(i, r). ?p3 r) (cleaned d)" for d
    by (simp add: cleaned_qty cleaned_filter_inv)
  have s4: "cleaned (check_refunded_nonpositive d) = filter (\<lambda>(i, r). ?p4 r) (cleaned d)" for d
    by (simp add: cleaned_ref cleaned_filter_inv)
  have t: "filter (\<lambda>x. True) xs = xs" for xs :: frame by simp
  show ?thesis
    unfolding run_checks_def Let_def
    by (cases "revenue_balance (checks cfg)"; cases "overall_balance (checks cfg)";
        cases "quantity_balance (checks cfg)"; cases "refunded_nonpositive (checks cfg)")
       (auto simp: s1 s2 s3 s4 passes_def intro!: filter_cong)
qed

lemma length_cleaned [simp]: "length (cleaned df) = length df"
  by (simp add: cleaned_def)

lemma map_fst_cleaned [simp]: "map fst (cleaned df) = map fst df"
  by (simp add: cleaned_def case_prod_unfold)

lemma passes_drop [simp]: "passes cfg (drop_chk_columns r) = passes cfg r"
  by (simp add: passes_def)

lemma cleaned_run_checks': "cleaned (run_checks cfg df) = cleaned (filter (\<lambda>(i, r). passes cfg r) df)"
  by (simp add: cleaned_run_checks cleaned_filter_inv)

lemma length_run_checks: "length (run_checks cfg df) = length (filter (\<lambda>(i, r). passes cfg r) df)"
  using arg_cong [OF cleaned_run_checks', of length cfg df] by simp

lemma dropped_nonneg: "0 \<le> dropped cfg df"
  by (simp add: dropped_def length_run_checks)

lemma dropped_le: "dropped cfg df \<le> int (length df)"
  by (simp add: dropped_def)


lemma two_rows_eq: "two_rows = [(0, measures 100 (-10) 0 90 9 99 10 10 0), (1, measures 100 (-10) 5 95 9 104 9 10 1)]"
  by (simp add: two_rows_def read_csv_def upt_rec)

lemma passes_1: "passes (all_checks (1/100) c) (measures 100 (-10) 0 90 9 99 10 10 0)"
  by (simp add: passes_def all_checks_def measures_def blank_record_def within_tolerance_def add_col_def eq_col_def nonpositive_def)

lemma passes_2: "\<not> passes (all_checks (1/100) c) (measures 100 (-10) 5 95 9 104 9 10 1)"
  by (simp add: passes_def all_checks_def measures_def blank_record_def within_tolerance_def add_col_def eq_col_def nonpositive_def)









lemma passes_mono:
  assumes "tolerance c' = tolerance c"
    and "revenue_balance (checks c) \<longrightarrow> revenue_balance (checks c')"
    and "overall_balance (checks c) \<longrightarrow> overall_balance (checks c')"
    and "quantity_balance (checks c) \<longrightarrow> quantity_balance (checks c')"
    and "refunded_nonpositive (checks c) \<longrightarrow> refunded_nonpositive (checks c')"
    and "passes c' r"
  shows "passes c r"
  using assms by (auto simp: passes_def split: if_splits)

lemma length_filter_mono:
  "(\<And>x. x \<in> set xs \<Longrightarrow> P x \<Longrightarrow> Q x) \<Longrightarrow> length (filter P xs) \<le> length (filter Q xs)"
  by (induction xs) auto







text \<open>
  Claim C10. For a fixed frame and tolerance, a configuration that enables every check
  another one enables (and possibly more) drops at least as many rows, and so has at least
  its drop rate. With the four checks disabled nothing is dropped.
\<close>

theorem dropped_monotone:
  "(tolerance c' = tolerance c
      \<and> (revenue_balance (checks c) \<longrightarrow> revenue_balance (checks c'))
      \<and> (overall_balance (checks c) \<longrightarrow> overall_balance (checks c'))
      \<and> (quantity_balance (checks c) \<longrightarrow> quantity_balance (checks c'))
      \<and> (refunded_nonpositive (checks c) \<longrightarrow> refunded_nonpositive (checks c'))
     \<longrightarrow> dropped c df \<le> dropped c' df \<and> drop_rate c df \<le> drop_rate c' df)
   \<and> (\<not> revenue_balance (checks c) \<and> \<not> overall_balance (checks c)
        \<and> \<not> quantity_balance (checks c) \<and> \<not> refunded_nonpositive (checks c)
     \<longrightarrow> run_checks c df = df \<and> dropped c df = 0 \<and> drop_rate c df = 0)"
proof (intro conjI impI)
  assume h: "tolerance c' = tolerance c
      \<and> (revenue_balance (checks c) \<longrightarrow> revenue_balance (checks c'))
      \<and> (overall_balance (checks c) \<longrightarrow> overall_balance (checks c'))
      \<and> (quantity_balance (checks c) \<longrightarrow> quantity_balance (checks c'))
      \<and> (refunded_nonpositive (checks c) \<longrightarrow> refunded_nonpositive (checks c'))"
  have "length (filter (\<lambda>(i, r). passes c' r) df) \<le> length (filter (\<lambda>(i, r). passes c r) df)"
    by (rule length_filter_mono) (use h passes_mono [of c' c] in auto)
  then show d: "dropped c df \<le> dropped c' df"
    by (simp add: dropped_def length_run_checks)
  have "(0::rat) < of_int (max (int (length df)) 1)" by simp
  then show "drop_rate c df \<le> drop_rate c' df"
    unfolding drop_rate_def using d by (simp add: divide_right_mono)
next
  assume h: "\<not> revenue_balance (checks c) \<and> \<not> overall_balance (checks c)
        \<and> \<not> quantity_balance (checks c) \<and> \<not> refunded_nonpositive (checks c)"
  then show r: "run_checks c df = df" by (simp add: run_checks_def)
  then show d: "dropped c df = 0" by (simp add: dropped_def)
  then show "drop_rate c df = 0" by (simp add: drop_rate_def)
qed

theorem dropped_monotone_witness:
  "dropped (no_checks (1/100) None) two_rows = 0
   \<and> dropped (all_checks (1/100) None) two_rows = 1
   \<and> dropped (no_checks (1/100) None) two_rows \<le> dropped (all_checks (1/100) None) two_rows
   \<and> drop_rate (no_checks (1/100) None) two_rows \<le> drop_rate (all_checks (1/100) None) two_rows"
proof -
  have d: "dropped (all_checks (1/100) None) two_rows = 1"
    by (simp add: dropped_def length_run_checks two_rows_eq passes_1 passes_2)
  show ?thesis
    using dropped_monotone [of "all_checks (1/100) None" "no_checks (1/100) None" two_rows] d
    by (simp add: no_checks_def all_checks_def)
qed

section \<open>Properties of the date dimension\<close>

lemma set_dropna: "set (dropna xs) = {v. Some v \<in> set xs}"
  by (induction xs) (auto simp: dropna_def split: option.splits)

lemma to_date_timestamp [simp]: "to_date (to_timestamp d) = d"
  by (simp add: to_date_def to_timestamp_def ns_per_day_def)

lemma full_date_row [simp]: "full_date (date_row d) = to_timestamp d"
  by (simp add: date_row_def split: prod.splits)

lemma is_weekend_row [simp]: "is_weekend (date_row d) = (weekday d \<ge> 5)"
  by (simp add: date_row_def split: prod.splits)

lemma inj_to_timestamp: "inj to_timestamp"
  by (rule inj_on_inverseI [where g = to_date]) simp

lemma to_date_mono: "a \<le> b \<Longrightarrow> to_date a \<le> to_date b"
  by (simp add: to_date_def ns_per_day_def zdiv_mono1)

lemma weekend_iso: "(weekday d \<ge> 5) = (isoweekday d = 6 \<or> isoweekday d = 7)"
proof -
  have "0 \<le> weekday d" "weekday d < 7" by (simp_all add: weekday_def)
  then show ?thesis unfolding isoweekday_def by arith
qed

lemma fold_min_Min: "fold min ts (t::int) = Min (set (t # ts))"
  by (rule Min.set_eq_fold [symmetric])

lemma fold_max_Max: "fold max ts (t::int) = Max (set (t # ts))"
  by (rule Max.set_eq_fold [symmetric])

lemma two_dates_eq: "two_dates = [(0, blank_record\<lparr>date := Some 1762041600000000000\<rparr>),
                         (1, blank_record\<lparr>date := Some 1762732800000000000\<rparr>)]"
  by (simp add: two_dates_def read_csv_def upt_rec)

lemma no_dates_eq: "no_dates = [(0, blank_record), (1, blank_record)]"
  by (simp add: no_dates_def read_csv_def upt_rec)

lemma build_two_dates: "build_date_dimension two_dates = Inr (map date_row [20394..20402])"
  by (simp add: build_date_dimension_def two_dates_eq dropna_def to_date_def ns_per_day_def
      date_range_def)

text \<open>
  Claim C6. When some date is not missing, \<open>build_date_dimension\<close> returns
  \<open>(max_date - min_date).days + 1\<close> rows, one for each day from the day of the smallest
  date to the day of the largest, in order and without gaps, each \<open>full_date\<close> the midnight
  of its day and no \<open>full_date\<close> twice; \<open>is_weekend\<close> holds exactly on ISO weekdays 6
  (Saturday) and 7 (Sunday). When every date is missing it raises and returns nothing.
\<close>

theorem build_date_dimension_range:
  "((\<exists>i r t. (i, r) \<in> set df \<and> date r = Some t) \<longrightarrow>
      (\<exists>rows.
         build_date_dimension df = Inr rows
         \<and> int (length rows)
             = to_date (Max {t. \<exists>i r. (i, r) \<in> set df \<and> date r = Some t})
               - to_date (Min {t. \<exists>i r. (i, r) \<in> set df \<and> date r = Some t}) + 1
         \<and> map (\<lambda>r. to_date (full_date r)) rows
             = [to_date (Min {t. \<exists>i r. (i, r) \<in> set df \<and> date r = Some t}) ..
                to_date (Max {t. \<exists>i r. (i, r) \<in> set df \<and> date r = Some t})]
         \<and> (\<forall>r \<in> set rows. full_date r = to_timestamp (to_date (full_date r)))
         \<and> distinct (map full_date rows)
         \<and> (\<forall>r \<in> set rows.
               is_weekend r = (isoweekday (to_date (full_date r)) = 6
                                \<or> isoweekday (to_date (full_date r)) = 7))))
   \<and> ((\<forall>(i, r) \<in> set df. date r = None) \<longrightarrow> build_date_dimension df = Inl NoValidDates)"
proof (intro conjI impI)
  let ?S = "{t. \<exists>i r. (i, r) \<in> set df \<and> date r = Some t}"
  let ?series = "dropna (map (\<lambda>(i, r). date r) df)"
  have S: "set ?series = ?S"
  proof (intro set_eqI iffI)
    fix t assume "t \<in> set ?series"
    then obtain x where x: "x \<in> set df" "date (snd x) = Some t"
      by (auto simp: set_dropna split_def)
    obtain i r where "x = (i, r)" by (cases x)
    with x show "t \<in> ?S" by auto
  next
    fix t assume "t \<in> ?S"
    then obtain i r where "(i, r) \<in> set df" "date r = Some t" by blast
    then have "Some t \<in> (\<lambda>(i, r). date r) ` set df" by force
    then show "t \<in> set ?series" by (simp add: set_dropna)
  qed
  assume "\<exists>i r t. (i, r) \<in> set df \<and> date r = Some t"
  then have "?S \<noteq> {}" by blast
  then obtain t ts where ser: "?series = t # ts"
    using S by (cases ?series) auto
  let ?lo = "to_date (Min ?S)" and ?hi = "to_date (Max ?S)"
  have mn: "fold min ts t = Min ?S" and mx: "fold max ts t = Max ?S"
    unfolding fold_min_Min fold_max_Max using S ser by simp_all
  have fin: "finite ?S" using S [symmetric] by simp
  have "Min ?S \<in> ?S" using fin \<open>?S \<noteq> {}\<close> by (rule Min_in)
  then have "Min ?S \<le> Max ?S" using fin by (rule Max_ge [rotated])
  then have le: "?lo \<le> ?hi" by (rule to_date_mono)
  have b: "build_date_dimension df = Inr (map date_row [?lo..?hi])"
    by (simp add: build_date_dimension_def ser mn mx date_range_def)
  have l: "int (length (map date_row [?lo..?hi])) = ?hi - ?lo + 1"
    using le by simp
  have m: "map (\<lambda>r. to_date (full_date r)) (map date_row [?lo..?hi]) = [?lo..?hi]"
    by (simp add: comp_def)
  have ts: "\<forall>r \<in> set (map date_row [?lo..?hi]). full_date r = to_timestamp (to_date (full_date r))"
    by simp
  have d: "distinct (map full_date (map date_row [?lo..?hi]))"
    by (simp add: comp_def distinct_map inj_on_def inj_to_timestamp [THEN injD])
  have w: "\<forall>r \<in> set (map date_row [?lo..?hi]).
               is_weekend r = (isoweekday (to_date (full_date r)) = 6
                                \<or> isoweekday (to_date (full_date r)) = 7)"
    by (simp add: weekend_iso)
  show "\<exists>rows.
         build_date_dimension df = Inr rows
         \<and> int (length rows) = ?hi - ?lo + 1
         \<and> map (\<lambda>r. to_date (full_date r)) rows = [?lo..?hi]
         \<and> (\<forall>r \<in> set rows. full_date r = to_timestamp (to_date (full_date r)))
         \<and> distinct (map full_date rows)
         \<and> (\<forall>r \<in> set rows.
               is_weekend r = (isoweekday (to_date (full_date r)) = 6
                                \<or> isoweekday (to_date (full_date r)) = 7))"
    using b l m ts d w by blast
next
  assume a: "\<forall>(i, r) \<in> set df. date r = None"
  have "dropna (map (\<lambda>(i, r). date r) df) = []"
    using a by (induction df) (auto simp: dropna_def)
  then show "build_date_dimension df = Inl NoValidDates"
    by (simp add: build_date_dimension_def)
qed


theorem build_date_dimension_range_witness:
  "(\<exists>i r t. (i, r) \<in> set two_dates \<and> date r = Some t)
   \<and> build_date_dimension two_dates = Inr (map date_row [20394..20402])
   \<and> distinct (map full_date (map date_row [20394..20402]))
   \<and> map is_weekend (map date_row [20394..20402])
       = [True, False, False, False, False, False, True, True, False]
   \<and> build_date_dimension no_dates = Inl NoValidDates"
proof -
  have "(0, blank_record\<lparr>date := Some 1762041600000000000\<rparr>) \<in> set two_dates"
    by (simp add: two_dates_eq)
  moreover have "date (blank_record\<lparr>date := Some 1762041600000000000\<rparr>) = Some 1762041600000000000"
    by simp
  ultimately have h: "\<exists>i r t. (i, r) \<in> set two_dates \<and> date r = Some t"
    by (intro exI conjI)
  from build_date_dimension_range [of two_dates, THEN conjunct1, THEN mp, OF h]
  obtain rows where r: "build_date_dimension two_dates = Inr rows" and d: "distinct (map full_date rows)"
    by (elim exE conjE)
  from r have rows: "rows = map date_row [20394..20402]"
    by (simp add: build_two_dates)
  have n: "\<forall>(i, r) \<in> set no_dates. date r = None"
    by (simp add: no_dates_eq blank_record_def)
  have e: "build_date_dimension no_dates = Inl NoValidDates"
    using build_date_dimension_range [of no_dates, THEN conjunct2, THEN mp, OF n] .
  have u: "[20394..20402] = [20394, 20395, 20396, 20397, 20398, 20399, 20400, 20401, 20402::int]"
    by (simp add: upto_rec_numeral)
  have w: "map is_weekend (map date_row [20394..20402])
       = [True, False, False, False, False, False, True, True, False]"
    unfolding u by (simp add: weekday_def)
  show ?thesis
    using h build_two_dates d [unfolded rows] w e by (intro conjI)
qed

section \<open>Properties of the reconciler\<close>

lemma new_rows_eq: "new_rows on cands existing = filter (\<lambda>r. on r \<notin> set existing) cands"
proof (induction cands)
  case Nil
  then show ?case by (simp add: new_rows_def merge_left_def)
next
  case (Cons a cands)
  have f: "(filter (\<lambda>b. b = on a) existing = []) = (on a \<notin> set existing)"
    by (auto simp: filter_empty_conv)
  show ?case
  proof (cases "on a \<in> set existing")
    case True
    then obtain m ms where "filter (\<lambda>b. b = on a) existing = m # ms"
      using f by (cases "filter (\<lambda>b. b = on a) existing") auto
    with True Cons.IH show ?thesis
      by (simp add: new_rows_def merge_left_def indicator_def case_prod_unfold)
  next
    case False
    with f have "filter (\<lambda>b. b = on a) existing = []" by simp
    with False Cons.IH show ?thesis
      by (simp add: new_rows_def merge_left_def indicator_def)
  qed
qed

lemma reconcile_fst: "fst (reconcile on cands table) = filter (\<lambda>r. on r \<notin> on ` set table) cands"
  by (simp add: reconcile_def new_rows_eq)

lemma reconcile_snd: "snd (reconcile on cands table) = table @ fst (reconcile on cands table)"
  by (simp add: reconcile_def new_rows_eq to_sql_def)

lemma reconcile_again: "fst (reconcile on cands (snd (reconcile on cands table))) = []"
  unfolding reconcile_snd reconcile_fst
  by (auto simp: filter_empty_conv)

lemma reconcile_again_table:
  "snd (reconcile on cands (snd (reconcile on cands table))) = snd (reconcile on cands table)"
  using reconcile_again [of on cands table]
    reconcile_snd [of on cands "snd (reconcile on cands table)"] by simp

lemma load_dimensions_eq:
  "load_dimensions dd di db wh =
     ((fst (reconcile full_date dd (dim_date_table wh)),
       fst (reconcile dim_item_code di (dim_item_table wh)),
       fst (reconcile (\<lambda>b. b) db (dim_buyer_table wh))),
      \<lparr>dim_date_table = snd (reconcile full_date dd (dim_date_table wh)),
       dim_item_table = snd (reconcile dim_item_code di (dim_item_table wh)),
       dim_buyer_table = snd (reconcile (\<lambda>b. b) db (dim_buyer_table wh))\<rparr>)"
  by (simp add: load_dimensions_def Let_def case_prod_unfold)

text \<open>
  Claim C2. For any natural key (\<open>full_date\<close>, \<open>item_code\<close>, \<open>buyer_id\<close>), the rows inserted
  are the candidate rows whose key no persisted row has, in the candidates' order; the table
  afterwards is the old table followed by them, so no persisted row is inserted again or
  changed; and a second run with the same candidates against the table the first run left
  inserts nothing and leaves the table as it is. The same for the three loads of \<open>run_etl\<close>
  together.
\<close>

theorem reconcile_anti_join:
  "fst (reconcile on cands table) = filter (\<lambda>r. on r \<notin> on ` set table) cands
   \<and> snd (reconcile on cands table) = table @ fst (reconcile on cands table)
   \<and> (\<forall>r \<in> set (fst (reconcile on cands table)). r \<in> set cands \<and> on r \<notin> on ` set table)
   \<and> (\<forall>r \<in> set cands. on r \<notin> on ` set table \<longrightarrow> r \<in> set (fst (reconcile on cands table)))
   \<and> fst (reconcile on cands (snd (reconcile on cands table))) = []
   \<and> snd (reconcile on cands (snd (reconcile on cands table))) = snd (reconcile on cands table)
   \<and> fst (load_dimensions dd di db wh)
       = (filter (\<lambda>r. full_date r \<notin> full_date ` set (dim_date_table wh)) dd,
          filter (\<lambda>r. dim_item_code r \<notin> dim_item_code ` set (dim_item_table wh)) di,
          filter (\<lambda>b. b \<notin> set (dim_buyer_table wh)) db)
   \<and> fst (load_dimensions dd di db (snd (load_dimensions dd di db wh))) = ([], [], [])
   \<and> snd (load_dimensions dd di db (snd (load_dimensions dd di db wh)))
       = snd (load_dimensions dd di db wh)"
proof -
  have a: "\<forall>r \<in> set (fst (reconcile on cands table)). r \<in> set cands \<and> on r \<notin> on ` set table"
    by (simp add: reconcile_fst)
  have b: "\<forall>r \<in> set cands. on r \<notin> on ` set table \<longrightarrow> r \<in> set (fst (reconcile on cands table))"
    by (simp add: reconcile_fst)
  have c: "fst (load_dimensions dd di db wh)
       = (filter (\<lambda>r. full_date r \<notin> full_date ` set (dim_date_table wh)) dd,
          filter (\<lambda>r. dim_item_code r \<notin> dim_item_code ` set (dim_item_table wh)) di,
          filter (\<lambda>b. b \<notin> set (dim_buyer_table wh)) db)"
    by (simp add: load_dimensions_eq reconcile_fst)
  have d: "fst (load_dimensions dd di db (snd (load_dimensions dd di db wh))) = ([], [], [])"
    by (simp add: load_dimensions_eq reconcile_again)
  have e: "snd (load_dimensions dd di db (snd (load_dimensions dd di db wh)))
       = snd (load_dimensions dd di db wh)"
    by (simp add: load_dimensions_eq reconcile_again_table)
  show ?thesis
    by (intro conjI reconcile_fst reconcile_snd a b reconcile_again reconcile_again_table c d e)
qed

theorem reconcile_anti_join_witness:
  "fst (reconcile (\<lambda>b. b) [1, 2, 3::int] [2]) = [1, 3]
   \<and> snd (reconcile (\<lambda>b. b) [1, 2, 3::int] [2]) = [2, 1, 3]
   \<and> fst (reconcile (\<lambda>b. b) [1, 2, 3::int] [2, 1, 3]) = []"
proof -
  note t = reconcile_anti_join [of "\<lambda>b. b" "[1, 2, 3::int]" "[2]"]
  have a: "fst (reconcile (\<lambda>b. b) [1, 2, 3::int] [2]) = [1, 3]"
    unfolding t [THEN conjunct1] by simp
  have b: "snd (reconcile (\<lambda>b. b) [1, 2, 3::int] [2]) = [2, 1, 3]"
    unfolding t [THEN conjunct2, THEN conjunct1] a by simp
  have c: "fst (reconcile (\<lambda>b. b) [1, 2, 3::int] [2, 1, 3]) = []"
    using t [THEN conjunct2, THEN conjunct2, THEN conjunct2, THEN conjunct2, THEN conjunct1]
    unfolding b .
  show ?thesis using a b c by (intro conjI)
qed

section \<open>Properties of the identifier cleaning\<close>







section \<open>Properties of the canonicalizer\<close>

lemma upper_cases [simp]:
  "is_space (to_upper c) = is_space c" "is_cased (to_upper c) = is_cased c"
  "to_upper (to_upper c) = to_upper c" "to_lower (to_upper c) = to_lower c"
  by (auto simp: to_upper_def to_lower_def is_space_def is_cased_def is_upper_def is_lower_def)


lemma lower_cases [simp]:
  "is_space (to_lower c) = is_space c" "is_cased (to_lower c) = is_cased c"
  "to_lower (to_lower c) = to_lower c" "to_upper (to_lower c) = to_upper c"
  by (auto simp: to_upper_def to_lower_def is_space_def is_cased_def is_upper_def is_lower_def)


lemma blank_cases [simp]:
  "is_space (CHR '' '')" "\<not> is_cased (CHR '' '')"
  "to_upper (CHR '' '') = CHR '' ''" "to_lower (CHR '' '') = CHR '' ''"
  by (simp_all add: to_upper_def to_lower_def is_space_def is_cased_def is_upper_def is_lower_def)


lemma title_from_Nil_iff [simp]: "(title_from p s = []) = (s = [])"
  by (cases s) auto


lemma rstrip_Nil [simp]: "rstrip [] = []"
  by (simp add: rstrip_def)














lemma collapse_Nil_iff [simp]: "(collapse_ws s = []) = (s = [])"
  by (cases s) auto







section \<open>Properties of the fact resolver\<close>

lemma filter_distinct_key:
  "distinct (map fst right) \<Longrightarrow>
   filter (\<lambda>b. fst b = k) right = (case map_of right k of None \<Rightarrow> [] | Some v \<Rightarrow> [(k, v)])"
proof (induction right)
  case Nil
  then show ?case by simp
next
  case (Cons b right)
  obtain k' v' where b: "b = (k', v')" by (cases b)
  show ?case
  proof (cases "k' = k")
    case True
    with Cons.prems b have "k \<notin> fst ` set right" by auto
    then have "filter (\<lambda>b. fst b = k) right = []" by (auto simp: filter_empty_conv)
    with True b show ?thesis by simp
  next
    case False
    with Cons b show ?thesis by simp
  qed
qed

lemma merge_left_distinct:
  assumes "distinct (map fst right)"
  shows "merge_left lk fst left right
         = map (\<lambda>a. (a, map_option (Pair (lk a)) (map_of right (lk a)))) left"
  unfolding merge_left_def
  by (induction left) (auto simp: filter_distinct_key [OF assms] split: option.splits)

lemma facts_distinct:
  assumes "distinct (map fst dim_date)" and "distinct (map fst dim_item)"
    and "distinct (map fst dim_buyer)"
  shows "snd (load_fact_sales df dim_date dim_item dim_buyer)
           = map (\<lambda>r. fact_of r (map_of dim_date (date r)) (map_of dim_item (item_code r))
                                 (map_of dim_buyer (buyer_id r)))
               (filter (\<lambda>r. resolves dim_date dim_item dim_buyer r \<and> transaction_id r \<noteq> None)
                  (map snd df))
       \<and> fst (load_fact_sales df dim_date dim_item dim_buyer)
           = (let n = length (filter (\<lambda>r. \<not> resolves dim_date dim_item dim_buyer r) (map snd df))
              in if n = 0 then None else Some n)"
proof -
  let ?look = "\<lambda>r. (r, map_of dim_date (date r), map_of dim_item (item_code r),
                        map_of dim_buyer (buyer_id r))"
  have j: "map (\<lambda>(((r, d), it), b). (r, map_option snd d, map_option snd it, map_option snd b))
            (merge_left (\<lambda>((r, d), it). buyer_id r) fst
              (merge_left (\<lambda>(r, d). item_code r) fst
                (merge_left (\<lambda>r. date r) fst (map snd df) dim_date) dim_item) dim_buyer)
           = map ?look (map snd df)"
    by (simp add: merge_left_distinct assms comp_def option.map_comp option.map_ident)
  have w: "(if xs \<noteq> [] then Some (length xs) else None)
           = (if length xs = 0 then None else Some (length xs))" for xs :: "'z list"
    by simp
  have m: "length (filter (\<lambda>(r, dk, ik, bk). dk = None \<or> ik = None \<or> bk = None)
             (map ?look (map snd df)))
           = length (filter (\<lambda>r. \<not> resolves dim_date dim_item dim_buyer r) (map snd df))"
    by (simp add: filter_map comp_def resolves_def de_Morgan_conj)
  have f: "filter (\<lambda>f. date_key f \<noteq> None \<and> item_key f \<noteq> None \<and> buyer_key f \<noteq> None
                       \<and> transaction_id f \<noteq> None)
             (map (\<lambda>(r, dk, ik, bk). fact_of r dk ik bk) (map ?look (map snd df)))
           = map (\<lambda>r. fact_of r (map_of dim_date (date r)) (map_of dim_item (item_code r))
                                 (map_of dim_buyer (buyer_id r)))
               (filter (\<lambda>r. resolves dim_date dim_item dim_buyer r \<and> transaction_id r \<noteq> None)
                  (map snd df))"
    by (simp add: filter_map comp_def resolves_def fact_of_def)
  show ?thesis
    unfolding load_fact_sales_def Let_def j w m f by simp
qed


lemma merge_left_append:
  "merge_left lk rk (xs @ ys) right = merge_left lk rk xs right @ merge_left lk rk ys right"
  by (simp add: merge_left_def)

lemma merge_left_concat:
  "merge_left lk rk left right = concat (map (\<lambda>a. merge_left lk rk [a] right) left)"
  by (induction left) (simp_all add: merge_left_def)

lemma merge_left_one:
  "(case filter (\<lambda>b. rk b = k) right of [] \<Rightarrow> [(a, None)] | ms \<Rightarrow> map (\<lambda>b. (a, Some b)) ms)
   = (if k \<in> rk ` set right then map (\<lambda>b. (a, Some b)) (filter (\<lambda>b. rk b = k) right)
      else [(a, None)])"
proof (cases "filter (\<lambda>b. rk b = k) right")
  case Nil
  then have "\<forall>b \<in> set right. rk b \<noteq> k" by (simp add: filter_empty_conv)
  then have "k \<notin> rk ` set right" by auto
  with Nil show ?thesis by simp
next
  case (Cons m ms)
  then have "m \<in> set (filter (\<lambda>b. rk b = k) right)" by simp
  then have "k \<in> rk ` set right" by auto
  with Cons show ?thesis by simp
qed

lemma merge_left_eq:
  "merge_left lk rk left right
   = concat (map (\<lambda>a. if lk a \<in> rk ` set right
                       then map (\<lambda>b. (a, Some b)) (filter (\<lambda>b. rk b = lk a) right)
                       else [(a, None)]) left)"
  by (simp add: merge_left_def merge_left_one)

lemma set_merge_left:
  "set (merge_left lk rk left right)
   = {(a, m). a \<in> set left \<and>
        ((m = None \<and> lk a \<notin> rk ` set right) \<or> (\<exists>b \<in> set right. rk b = lk a \<and> m = Some b))}"
proof (induction left)
  case Nil
  then show ?case by (simp add: merge_left_def)
next
  case (Cons a left)
  have "merge_left lk rk (a # left) right = merge_left lk rk [a] right @ merge_left lk rk left right"
    by (simp add: merge_left_def)
  moreover have "set (merge_left lk rk [a] right)
     = {(a', m). a' = a \<and>
        ((m = None \<and> lk a \<notin> rk ` set right) \<or> (\<exists>b \<in> set right. rk b = lk a \<and> m = Some b))}"
  proof (cases "lk a \<in> rk ` set right")
    case True
    then show ?thesis unfolding merge_left_eq by auto
  next
    case False
    then have "\<forall>b \<in> set right. rk b \<noteq> lk a" by (metis imageI)
    with False show ?thesis unfolding merge_left_eq by auto
  qed
  ultimately show ?case using Cons.IH by auto
qed


lemma load_fact_sales_joined:
  "load_fact_sales df dd di db =
     (let j = joined (map snd df) dd di db;
          missing = filter (\<lambda>(r, dk, ik, bk). dk = None \<or> ik = None \<or> bk = None) j
      in (if missing \<noteq> [] then Some (length missing) else None,
          filter (\<lambda>f. date_key f \<noteq> None \<and> item_key f \<noteq> None \<and> buyer_key f \<noteq> None
                       \<and> transaction_id f \<noteq> None)
            (map (\<lambda>(r, dk, ik, bk). fact_of r dk ik bk) j)))"
  by (simp add: load_fact_sales_def joined_def Let_def)

lemma joined_append: "joined (rs @ rs') dd di db = joined rs dd di db @ joined rs' dd di db"
  by (simp add: joined_def merge_left_append)

lemma facts_append:
  "snd (load_fact_sales (df @ df') dd di db)
   = snd (load_fact_sales df dd di db) @ snd (load_fact_sales df' dd di db)"
  by (simp add: load_fact_sales_joined Let_def joined_append)

lemma facts_concat:
  "snd (load_fact_sales df dd di db) = concat (map (\<lambda>x. snd (load_fact_sales [x] dd di db)) df)"
proof (induction df)
  case Nil
  then show ?case by (simp add: load_fact_sales_joined joined_def merge_left_def)
next
  case (Cons x df)
  have "snd (load_fact_sales (x # df) dd di db)
        = snd (load_fact_sales [x] dd di db) @ snd (load_fact_sales df dd di db)"
    using facts_append [of "[x]" df dd di db] by simp
  with Cons show ?case by simp
qed

lemma mem_merge_left:
  "((a, m) \<in> set (merge_left lk rk left right))
   = (a \<in> set left \<and>
        ((m = None \<and> lk a \<notin> rk ` set right) \<or> (\<exists>b \<in> set right. rk b = lk a \<and> m = Some b)))"
  by (simp add: set_merge_left)

lemma map_of_resolves: "(map_of dm k \<noteq> None) = (k \<in> fst ` set dm)"
  by (simp add: map_of_eq_None_iff)

lemma mem_joined:
  "((r, dk, ik, bk) \<in> set (joined rs dd di db))
   = (\<exists>d it b. r \<in> set rs
        \<and> ((d = None \<and> date r \<notin> fst ` set dd) \<or> (\<exists>x \<in> set dd. fst x = date r \<and> d = Some x))
        \<and> ((it = None \<and> item_code r \<notin> fst ` set di) \<or> (\<exists>x \<in> set di. fst x = item_code r \<and> it = Some x))
        \<and> ((b = None \<and> buyer_id r \<notin> fst ` set db) \<or> (\<exists>x \<in> set db. fst x = buyer_id r \<and> b = Some x))
        \<and> dk = map_option snd d \<and> ik = map_option snd it \<and> bk = map_option snd b)"
proof -
  have "((r, dk, ik, bk) \<in> set (joined rs dd di db))
        = (\<exists>d it b. (((r, d), it), b) \<in> set (merge_left (\<lambda>((r, d), it). buyer_id r) fst
             (merge_left (\<lambda>(r, d). item_code r) fst
               (merge_left (\<lambda>r. date r) fst rs dd) di) db)
            \<and> dk = map_option snd d \<and> ik = map_option snd it \<and> bk = map_option snd b)"
  proof
    assume "(r, dk, ik, bk) \<in> set (joined rs dd di db)"
    then obtain y where y: "y \<in> set (merge_left (\<lambda>((r, d), it). buyer_id r) fst
             (merge_left (\<lambda>(r, d). item_code r) fst
               (merge_left (\<lambda>r. date r) fst rs dd) di) db)"
      and e: "(r, dk, ik, bk)
              = (case y of (((r, d), it), b) \<Rightarrow>
                   (r, map_option snd d, map_option snd it, map_option snd b))"
      unfolding joined_def by auto
    obtain r' d it b where "y = (((r', d), it), b)" by (metis prod.exhaust)
    with y e show "\<exists>d it b. (((r, d), it), b) \<in> set (merge_left (\<lambda>((r, d), it). buyer_id r) fst
             (merge_left (\<lambda>(r, d). item_code r) fst
               (merge_left (\<lambda>r. date r) fst rs dd) di) db)
            \<and> dk = map_option snd d \<and> ik = map_option snd it \<and> bk = map_option snd b"
      by auto
  next
    assume "\<exists>d it b. (((r, d), it), b) \<in> set (merge_left (\<lambda>((r, d), it). buyer_id r) fst
             (merge_left (\<lambda>(r, d). item_code r) fst
               (merge_left (\<lambda>r. date r) fst rs dd) di) db)
            \<and> dk = map_option snd d \<and> ik = map_option snd it \<and> bk = map_option snd b"
    then show "(r, dk, ik, bk) \<in> set (joined rs dd di db)"
      unfolding joined_def by force
  qed
  then show ?thesis
    unfolding mem_merge_left by (simp add: conj_ac) 
qed


lemma mem_joined_Some:
  "((r, Some dk, Some ik, Some bk) \<in> set (joined rs dd di db))
   = (r \<in> set rs \<and> (date r, dk) \<in> set dd \<and> (item_code r, ik) \<in> set di
      \<and> (buyer_id r, bk) \<in> set db)"
proof -
  have k: "(\<exists>m. ((m = None \<and> A) \<or> (\<exists>x \<in> set dm. fst x = key \<and> m = Some x))
                \<and> Some v = map_option snd m)
           = ((key, v) \<in> set dm)" for A key v and dm :: "('k \<times> int) list"
    by (auto simp: map_option_case split: option.splits) 
  have "((r, Some dk, Some ik, Some bk) \<in> set (joined rs dd di db))
   = (r \<in> set rs
      \<and> (\<exists>d. ((d = None \<and> date r \<notin> fst ` set dd) \<or> (\<exists>x \<in> set dd. fst x = date r \<and> d = Some x))
              \<and> Some dk = map_option snd d)
      \<and> (\<exists>it. ((it = None \<and> item_code r \<notin> fst ` set di) \<or> (\<exists>x \<in> set di. fst x = item_code r \<and> it = Some x))
              \<and> Some ik = map_option snd it)
      \<and> (\<exists>b. ((b = None \<and> buyer_id r \<notin> fst ` set db) \<or> (\<exists>x \<in> set db. fst x = buyer_id r \<and> b = Some x))
              \<and> Some bk = map_option snd b))"
    unfolding mem_joined by blast
  then show ?thesis unfolding k .
qed

lemma in_fst_image: "(k \<in> fst ` set dm) = (\<exists>v. (k, v) \<in> set dm)"
  by force

lemma facts_one:
  "(snd (load_fact_sales [x] dd di db) \<noteq> [])
   = (resolves dd di db (snd x) \<and> transaction_id (snd x) \<noteq> None)"
proof -
  let ?r = "snd x"
  let ?P = "\<lambda>f :: fact_row. date_key f \<noteq> None \<and> item_key f \<noteq> None \<and> buyer_key f \<noteq> None
                       \<and> transaction_id f \<noteq> None"
  have "(snd (load_fact_sales [x] dd di db) \<noteq> [])
        = (\<exists>j \<in> set (joined [?r] dd di db). ?P (case j of (r, dk, ik, bk) \<Rightarrow> fact_of r dk ik bk))"
    by (simp add: load_fact_sales_joined Let_def filter_empty_conv)
  also have "\<dots> = (\<exists>r dk ik bk. (r, Some dk, Some ik, Some bk) \<in> set (joined [?r] dd di db)
                     \<and> transaction_id r \<noteq> None)"
  proof
    assume "\<exists>j \<in> set (joined [?r] dd di db). ?P (case j of (r, dk, ik, bk) \<Rightarrow> fact_of r dk ik bk)"
    then obtain j where j: "j \<in> set (joined [?r] dd di db)"
      and p: "?P (case j of (r, dk, ik, bk) \<Rightarrow> fact_of r dk ik bk)" by blast
    obtain r dk ik bk where jj: "j = (r, dk, ik, bk)" by (metis prod.exhaust)
    from p jj obtain a b c where "dk = Some a" "ik = Some b" "bk = Some c" "transaction_id r \<noteq> None"
      by (auto simp: fact_of_def)
    with j jj show "\<exists>r dk ik bk. (r, Some dk, Some ik, Some bk) \<in> set (joined [?r] dd di db)
                     \<and> transaction_id r \<noteq> None"
      by blast
  next
    assume "\<exists>r dk ik bk. (r, Some dk, Some ik, Some bk) \<in> set (joined [?r] dd di db)
                     \<and> transaction_id r \<noteq> None"
    then obtain r dk ik bk where m: "(r, Some dk, Some ik, Some bk) \<in> set (joined [?r] dd di db)"
      and t: "transaction_id r \<noteq> None" by blast
    have "?P (case (r, Some dk, Some ik, Some bk) of (r, dk, ik, bk) \<Rightarrow> fact_of r dk ik bk)"
      using t by (simp add: fact_of_def)
    with m show "\<exists>j \<in> set (joined [?r] dd di db). ?P (case j of (r, dk, ik, bk) \<Rightarrow> fact_of r dk ik bk)"
      by (rule bexI [rotated])
  qed
  also have "\<dots> = (resolves dd di db ?r \<and> transaction_id ?r \<noteq> None)"
    unfolding mem_joined_Some resolves_def map_of_resolves in_fst_image by auto
  finally show ?thesis .
qed


lemma all_resolve:
  "(fst (load_fact_sales df dd di db) = None) = (\<forall>x \<in> set df. resolves dd di db (snd x))"
proof -
  have "(fst (load_fact_sales df dd di db) = None)
        = (\<forall>j \<in> set (joined (map snd df) dd di db).
             fst (snd j) \<noteq> None \<and> fst (snd (snd j)) \<noteq> None \<and> snd (snd (snd j)) \<noteq> None)"
    by (simp add: load_fact_sales_joined Let_def filter_empty_conv case_prod_unfold)
  also have "\<dots> = (\<forall>r dk ik bk. (r, dk, ik, bk) \<in> set (joined (map snd df) dd di db)
                       \<longrightarrow> dk \<noteq> None \<and> ik \<noteq> None \<and> bk \<noteq> None)"
    by fastforce
  also have "\<dots> = (\<forall>r \<in> set (map snd df). resolves dd di db r)"
  proof (intro iffI ballI allI impI)
    fix r
    assume a: "\<forall>r dk ik bk. (r, dk, ik, bk) \<in> set (joined (map snd df) dd di db)
                       \<longrightarrow> dk \<noteq> None \<and> ik \<noteq> None \<and> bk \<noteq> None"
      and r: "r \<in> set (map snd df)"
    obtain d where d: "(d = None \<and> date r \<notin> fst ` set dd) \<or> (\<exists>x \<in> set dd. fst x = date r \<and> d = Some x)"
      by (metis imageE)
    obtain it where it: "(it = None \<and> item_code r \<notin> fst ` set di)
        \<or> (\<exists>x \<in> set di. fst x = item_code r \<and> it = Some x)"
      by (metis imageE)
    obtain b where b: "(b = None \<and> buyer_id r \<notin> fst ` set db)
        \<or> (\<exists>x \<in> set db. fst x = buyer_id r \<and> b = Some x)"
      by (metis imageE)
    have "(r, map_option snd d, map_option snd it, map_option snd b)
          \<in> set (joined (map snd df) dd di db)"
      unfolding mem_joined using r d it b by blast
    with a have "map_option snd d \<noteq> None \<and> map_option snd it \<noteq> None \<and> map_option snd b \<noteq> None"
      by blast
    with d it b show "resolves dd di db r"
      unfolding resolves_def map_of_resolves by force
  next
    fix r dk ik bk
    assume a: "\<forall>r \<in> set (map snd df). resolves dd di db r"
      and m: "(r, dk, ik, bk) \<in> set (joined (map snd df) dd di db)"
    from m obtain d it b where r: "r \<in> set (map snd df)"
      and d: "(d = None \<and> date r \<notin> fst ` set dd) \<or> (\<exists>x \<in> set dd. fst x = date r \<and> d = Some x)"
      and it: "(it = None \<and> item_code r \<notin> fst ` set di)
        \<or> (\<exists>x \<in> set di. fst x = item_code r \<and> it = Some x)"
      and b: "(b = None \<and> buyer_id r \<notin> fst ` set db)
        \<or> (\<exists>x \<in> set db. fst x = buyer_id r \<and> b = Some x)"
      and e: "dk = map_option snd d" "ik = map_option snd it" "bk = map_option snd b"
      unfolding mem_joined by blast
    from a r have "date r \<in> fst ` set dd" "item_code r \<in> fst ` set di" "buyer_id r \<in> fst ` set db"
      unfolding resolves_def map_of_resolves by auto
    with d it b e show "dk \<noteq> None \<and> ik \<noteq> None \<and> bk \<noteq> None" by auto
  qed
  finally show ?thesis by simp
qed


lemma facts_keys:
  "\<forall>f \<in> set (snd (load_fact_sales df dd di db)).
     date_key f \<noteq> None \<and> item_key f \<noteq> None \<and> buyer_key f \<noteq> None \<and> transaction_id f \<noteq> None"
  by (simp add: load_fact_sales_def Let_def)

text \<open>
  Claim C7. \<open>load_fact_sales\<close> decides every validated candidate on its own: the fact rows
  are those of the candidates one by one, in order, and a candidate gives a fact row exactly
  when its date, item code and buyer id each name a row of their dimension table and its
  transaction id is not missing. Every fact row has its three keys and its transaction id.
  Nothing is raised for the others, whatever their number: the warning is logged exactly
  when some candidate does not resolve. When no dimension table holds a natural key twice,
  each resolving candidate gives one fact row with the keys of its dimension rows, and the
  warning carries the number of candidates that do not resolve.
\<close>

theorem load_fact_sales_resolves:
  "snd (load_fact_sales df dd di db) = concat (map (\<lambda>x. snd (load_fact_sales [x] dd di db)) df)
   \<and> (\<forall>x. (snd (load_fact_sales [x] dd di db) \<noteq> [])
            = (resolves dd di db (snd x) \<and> transaction_id (snd x) \<noteq> None))
   \<and> (\<forall>f \<in> set (snd (load_fact_sales df dd di db)).
         date_key f \<noteq> None \<and> item_key f \<noteq> None \<and> buyer_key f \<noteq> None \<and> transaction_id f \<noteq> None)
   \<and> ((fst (load_fact_sales df dd di db) = None) = (\<forall>x \<in> set df. resolves dd di db (snd x)))
   \<and> (distinct (map fst dd) \<and> distinct (map fst di) \<and> distinct (map fst db) \<longrightarrow>
        snd (load_fact_sales df dd di db)
           = map (\<lambda>r. fact_of r (map_of dd (date r)) (map_of di (item_code r))
                                 (map_of db (buyer_id r)))
               (filter (\<lambda>r. resolves dd di db r \<and> transaction_id r \<noteq> None) (map snd df))
        \<and> fst (load_fact_sales df dd di db)
           = (let n = length (filter (\<lambda>r. \<not> resolves dd di db r) (map snd df))
              in if n = 0 then None else Some n))"
proof -
  have one: "\<forall>x. (snd (load_fact_sales [x] dd di db) \<noteq> [])
            = (resolves dd di db (snd x) \<and> transaction_id (snd x) \<noteq> None)"
    by (simp add: facts_one)
  have d: "distinct (map fst dd) \<and> distinct (map fst di) \<and> distinct (map fst db) \<longrightarrow>
        snd (load_fact_sales df dd di db)
           = map (\<lambda>r. fact_of r (map_of dd (date r)) (map_of di (item_code r))
                                 (map_of db (buyer_id r)))
               (filter (\<lambda>r. resolves dd di db r \<and> transaction_id r \<noteq> None) (map snd df))
        \<and> fst (load_fact_sales df dd di db)
           = (let n = length (filter (\<lambda>r. \<not> resolves dd di db r) (map snd df))
              in if n = 0 then None else Some n)"
    using facts_distinct [of dd di db df] by blast
  show ?thesis
    by (intro conjI facts_concat one facts_keys all_resolve d)
qed

lemma three_sales_eq:
  "map snd three_sales = [sale 20394 ''A'' 1 10, sale 20395 ''B'' 2 20, sale 20395 ''C'' 2 30]"
  by (simp add: three_sales_def read_csv_def upt_rec)

lemma sale_fields [simp]:
  "date (sale d c b t) = Some (to_timestamp d)" "item_code (sale d c b t) = Some c"
  "buyer_id (sale d c b t) = Some b" "transaction_id (sale d c b t) = Some t"
  by (simp_all add: sale_def)

theorem load_fact_sales_resolves_witness:
  "distinct (map fst sample_dim_date) \<and> distinct (map fst sample_dim_item)
   \<and> distinct (map fst sample_dim_buyer)
   \<and> snd (load_fact_sales three_sales sample_dim_date sample_dim_item sample_dim_buyer)
       = [fact_of (sale 20394 ''A'' 1 10) (Some 1) (Some 10) (Some 100),
          fact_of (sale 20395 ''B'' 2 20) (Some 2) (Some 20) (Some 200)]
   \<and> fst (load_fact_sales three_sales sample_dim_date sample_dim_item sample_dim_buyer) = Some 1"
proof -
  have ts: "to_timestamp 20394 \<noteq> to_timestamp 20395"
    by (simp add: to_timestamp_def ns_per_day_def)
  have h: "distinct (map fst sample_dim_date) \<and> distinct (map fst sample_dim_item)
     \<and> distinct (map fst sample_dim_buyer)"
    using ts by (simp add: sample_dim_date_def sample_dim_item_def sample_dim_buyer_def)
  note t = load_fact_sales_resolves [of three_sales sample_dim_date sample_dim_item sample_dim_buyer,
      THEN conjunct2, THEN conjunct2, THEN conjunct2, THEN conjunct2, THEN mp, OF h]
  have r: "resolves sample_dim_date sample_dim_item sample_dim_buyer (sale 20394 ''A'' 1 10)"
    "resolves sample_dim_date sample_dim_item sample_dim_buyer (sale 20395 ''B'' 2 20)"
    "\<not> resolves sample_dim_date sample_dim_item sample_dim_buyer (sale 20395 ''C'' 2 30)"
    using ts by (simp_all add: resolves_def sample_dim_date_def sample_dim_item_def sample_dim_buyer_def)
  have m: "map_of sample_dim_date (Some (to_timestamp 20394)) = Some 1"
    "map_of sample_dim_date (Some (to_timestamp 20395)) = Some 2"
    "map_of sample_dim_item (Some ''A'') = Some 10" "map_of sample_dim_item (Some ''B'') = Some 20"
    "map_of sample_dim_buyer (Some 1) = Some 100" "map_of sample_dim_buyer (Some 2) = Some 200"
    using ts by (simp_all add: sample_dim_date_def sample_dim_item_def sample_dim_buyer_def)
  have a: "snd (load_fact_sales three_sales sample_dim_date sample_dim_item sample_dim_buyer)
       = [fact_of (sale 20394 ''A'' 1 10) (Some 1) (Some 10) (Some 100),
          fact_of (sale 20395 ''B'' 2 20) (Some 2) (Some 20) (Some 200)]"
    unfolding t [THEN conjunct1] three_sales_eq by (simp add: r m)
  have b: "fst (load_fact_sales three_sales sample_dim_date sample_dim_item sample_dim_buyer) = Some 1"
    unfolding t [THEN conjunct2] three_sales_eq by (simp add: r)
  show ?thesis using h a b by (intro conjI) simp_all
qed

section \<open>Properties of the item dimension\<close>

lemma dropna_Nil_iff: "(dropna xs = []) = (\<forall>x \<in> set xs. x = None)"
  by (induction xs) (auto simp: dropna_def split: option.splits)

lemma fold_max_nat: "fold max xs (a::nat) = Max (set (a # xs))"
  by (rule Max.set_eq_fold [symmetric])

lemma top_count:
  assumes "vs \<noteq> []"
  shows "\<exists>m \<in> set vs. count_list vs m = fold max (map (count_list vs) vs) 0"
    and "\<forall>v \<in> set vs. count_list vs v \<le> fold max (map (count_list vs) vs) 0"
proof -
  let ?C = "set (0 # map (count_list vs) vs)"
  have top: "fold max (map (count_list vs) vs) 0 = Max ?C" by (rule fold_max_nat)
  have fin: "finite ?C" by simp
  have "Max ?C \<in> ?C" by (rule Max_in) simp_all
  moreover obtain v where v: "v \<in> set vs" using assms by (cases vs) auto
  then have "0 < count_list vs v" using count_list_0_iff [of vs v] by simp
  moreover have "count_list vs v \<le> Max ?C" using v by (intro Max_ge) auto
  ultimately have "Max ?C \<in> count_list vs ` set vs" by auto
  then show "\<exists>m \<in> set vs. count_list vs m = fold max (map (count_list vs) vs) 0"
    unfolding top by auto
  show "\<forall>v \<in> set vs. count_list vs v \<le> fold max (map (count_list vs) vs) 0"
    unfolding top by (auto intro!: Max_ge)
qed

lemma canon_smallest_mode: "smallest_mode series (canon series)"
proof (cases "dropna series = []")
  case True
  then have m: "series_mode series = []" by (simp add: series_mode_def)
  from True have "\<forall>x \<in> set series. x = None" by (simp add: dropna_Nil_iff)
  then have "(case series of x # xs \<Rightarrow> x | [] \<Rightarrow> None) = None"
    by (cases series) auto
  with m True show ?thesis by (simp add: canon_def smallest_mode_def)
next
  case False
  let ?vs = "dropna series"
  let ?top = "fold max (map (count_list ?vs) ?vs) 0"
  let ?M = "filter (\<lambda>v. count_list ?vs v = ?top) ?vs"
  from top_count [OF False] have ex: "\<exists>m \<in> set ?vs. count_list ?vs m = ?top"
    and le: "\<forall>v \<in> set ?vs. count_list ?vs v \<le> ?top" by blast+
  have sm: "series_mode series = sort (remdups ?M)"
    by (simp add: series_mode_def Let_def)
  from ex have "set ?M \<noteq> {}" by auto
  then have "sort (remdups ?M) \<noteq> []" by (metis set_empty set_remdups set_sort)
  then obtain m ms where ms: "sort (remdups ?M) = m # ms" by (cases "sort (remdups ?M)") auto
  have "sorted (m # ms)" using ms [symmetric] by simp
  then have least: "\<forall>y \<in> set (m # ms). m \<le> y" by auto
  have set_eq: "set (m # ms) = set ?M" using ms [symmetric] by simp
  have mM: "m \<in> set ?M" using set_eq by auto
  then have m1: "m \<in> set ?vs" and m2: "count_list ?vs m = ?top" by auto
  have c: "canon series = Some m" by (simp add: canon_def sm ms)
  have a: "\<forall>v \<in> set ?vs. count_list ?vs v \<le> count_list ?vs m" using le m2 by simp
  have b: "\<forall>v \<in> set ?vs. count_list ?vs v = count_list ?vs m \<longrightarrow> m \<le> v"
  proof (intro ballI impI)
    fix v assume "v \<in> set ?vs" "count_list ?vs v = count_list ?vs m"
    then have "v \<in> set ?M" using m2 by simp
    then show "m \<le> v" using least set_eq by blast
  qed
  show ?thesis unfolding c smallest_mode_def using m1 a b by simp
qed


lemma set_dropna_iff: "(v \<in> set (dropna xs)) = (Some v \<in> set xs)"
  by (simp add: set_dropna)

lemma set_group_keys: "(k \<in> set (group_keys D)) = (Some k \<in> dim_item_code ` set D)"
  by (simp add: group_keys_def set_dropna_iff)

lemma distinct_group_keys: "distinct (group_keys D)"
  by (simp add: group_keys_def)

lemma group_rows_nonempty: "k \<in> set (group_keys D) \<Longrightarrow> group_rows k D \<noteq> []"
  unfolding set_group_keys group_rows_def by (auto simp: filter_empty_conv)

lemma first_valid_eq:
  "first_valid (map f g) = (case filter (\<lambda>x. f x \<noteq> None) g of x # xs \<Rightarrow> f x | [] \<Rightarrow> None)"
proof (induction g)
  case Nil
  then show ?case by (simp add: first_valid_def dropna_def)
next
  case (Cons a g)
  then show ?case by (cases "f a") (auto simp: first_valid_def dropna_def)
qed

lemma first_valid_None_iff: "(first_valid (map f g) = None) = (\<forall>x \<in> set g. f x = None)"
proof -
  have "(first_valid (map f g) = None) = (dropna (map f g) = [])"
    by (simp add: first_valid_def split: list.splits)
  then show ?thesis by (simp add: dropna_Nil_iff)
qed

lemma agg_fields [simp]:
  "dim_item_code (agg k g) = Some k"
  "dim_item_id (agg k g) = first_valid (map dim_item_id g)"
  "dim_item_name (agg k g) = canon (map dim_item_name g)"
  "dim_category (agg k g) = canon (map dim_category g)"
  "dim_version (agg k g) = canon (map dim_version g)"
  by (simp_all add: agg_def)

lemma mode_rows:
  assumes "item_attributes cfg = ''mode''"
  shows "snd (load_item_dimension cfg df)
         = filter (\<lambda>r. dim_item_id r \<noteq> None)
             (map (\<lambda>k. agg k (group_rows k (item_frame cfg df))) (group_keys (item_frame cfg df)))"
  using assms by (simp add: load_item_dimension_def Let_def)

lemma mode_warning:
  assumes "item_attributes cfg = ''mode''"
  shows "fst (load_item_dimension cfg df)
         = (let n = length (filter (\<lambda>k. \<forall>x \<in> set (group_rows k (item_frame cfg df)). dim_item_id x = None)
                             (group_keys (item_frame cfg df)))
            in if n = 0 then None else Some n)"
proof -
  let ?D = "item_frame cfg df"
  let ?G = "map (\<lambda>k. agg k (group_rows k ?D)) (group_keys ?D)"
  have "length ?G - length (filter (\<lambda>r. dim_item_id r \<noteq> None) ?G)
        = length (filter (\<lambda>r. \<not> dim_item_id r \<noteq> None) ?G)"
    using sum_length_filter_compl [of "\<lambda>r. dim_item_id r \<noteq> None" ?G] by arith
  also have "\<dots> = length (filter (\<lambda>k. \<forall>x \<in> set (group_rows k ?D). dim_item_id x = None)
                             (group_keys ?D))"
    by (simp add: filter_map comp_def first_valid_None_iff)
  finally have e: "length ?G - length (filter (\<lambda>r. dim_item_id r \<noteq> None) ?G)
        = length (filter (\<lambda>k. \<forall>x \<in> set (group_rows k ?D). dim_item_id x = None)
                             (group_keys ?D))" .
  have u: "fst (load_item_dimension cfg df)
        = (if length ?G - length (filter (\<lambda>r. dim_item_id r \<noteq> None) ?G) \<noteq> 0
           then Some (length ?G - length (filter (\<lambda>r. dim_item_id r \<noteq> None) ?G)) else None)"
    unfolding load_item_dimension_def Let_def assms by (simp only: refl if_True fst_conv)
  show ?thesis unfolding u e Let_def by simp
qed

lemma mode_test_items:
  "load_item_dimension (strategy ''mode'') test_items
   = (None,
      [\<lparr>dim_item_code = Some ''A'', dim_item_id = Some 1, dim_item_name = Some ''ITEM A'',
         dim_category = Some ''Electronics'', dim_version = Some ''v1''\<rparr>,
       \<lparr>dim_item_code = Some ''B'', dim_item_id = Some 2, dim_item_name = Some ''item B'',
         dim_category = Some ''Home Appliances'', dim_version = Some ''v2''\<rparr>])"
  by code_simp

lemma set_drop_duplicates_from: "set (drop_duplicates_from seen xs) = set xs - set seen"
  by (induction xs arbitrary: seen) auto

lemma item_dimension_no_null_id:
  "\<forall>r \<in> set (snd (load_item_dimension cfg df)). dim_item_id r \<noteq> None"
  by (auto simp: load_item_dimension_def Let_def drop_duplicates_def set_drop_duplicates_from)

text \<open>
  Claim C3, as stated, fails on the repository's own test frame: in group \<open>A\<close> the names
  \<open>item A\<close> and \<open>ITEM A\<close> are met once each, \<open>item A\<close> first, and the dimension holds
  \<open>ITEM A\<close>, the smaller of the two.
\<close>

theorem mode_tie_counterexample:
  "map dim_item_name (snd (load_item_dimension (strategy ''mode'') test_items))
     = [Some ''ITEM A'', Some ''item B'']
   \<and> first_seen_mode (map dim_item_name
         (group_rows ''A'' (item_frame (strategy ''mode'') test_items))) = Some ''item A''"
  by code_simp

text \<open>
  Claim C3, amended. Under the \<open>mode\<close> strategy the dimension has one row for each item
  code that is not missing and whose group has an item id that is not missing. Its item id
  is that of the first row of the group whose item id is not missing; its name, category
  and version are each, on their own, the most frequent value of the group that is not
  missing, the smallest in sorted order when several are as frequent, and missing when the
  group has none. The groups without an item id are dropped and the warning carries their
  number.
\<close>

theorem mode_strategy:
  assumes "item_attributes cfg = ''mode''"
  shows "distinct (map dim_item_code (snd (load_item_dimension cfg df)))
    \<and> (\<forall>r \<in> set (snd (load_item_dimension cfg df)).
          \<exists>k. dim_item_code r = Some k
            \<and> group_rows k (item_frame cfg df) \<noteq> []
            \<and> dim_item_id r \<noteq> None
            \<and> dim_item_id r
                = (case filter (\<lambda>x. dim_item_id x \<noteq> None) (group_rows k (item_frame cfg df)) of
                     x # xs \<Rightarrow> dim_item_id x | [] \<Rightarrow> None)
            \<and> smallest_mode (map dim_item_name (group_rows k (item_frame cfg df))) (dim_item_name r)
            \<and> smallest_mode (map dim_category (group_rows k (item_frame cfg df))) (dim_category r)
            \<and> smallest_mode (map dim_version (group_rows k (item_frame cfg df))) (dim_version r))
    \<and> (\<forall>k. (Some k \<in> dim_item_code ` set (snd (load_item_dimension cfg df)))
            = (\<exists>x \<in> set (group_rows k (item_frame cfg df)). dim_item_id x \<noteq> None))
    \<and> fst (load_item_dimension cfg df)
        = (let n = length (filter (\<lambda>k. \<forall>x \<in> set (group_rows k (item_frame cfg df)). dim_item_id x = None)
                             (group_keys (item_frame cfg df)))
           in if n = 0 then None else Some n)"
proof -
  let ?D = "item_frame cfg df"
  let ?rows = "snd (load_item_dimension cfg df)"
  note rows = mode_rows [OF assms, of df]
  have codes: "map dim_item_code ?rows
      = map Some (filter (\<lambda>k. first_valid (map dim_item_id (group_rows k ?D)) \<noteq> None) (group_keys ?D))"
    unfolding rows by (simp add: filter_map comp_def)
  have d: "distinct (map dim_item_code ?rows)"
    unfolding codes by (simp add: distinct_map distinct_group_keys)
  have each: "\<forall>r \<in> set ?rows.
          \<exists>k. dim_item_code r = Some k
            \<and> group_rows k ?D \<noteq> []
            \<and> dim_item_id r \<noteq> None
            \<and> dim_item_id r
                = (case filter (\<lambda>x. dim_item_id x \<noteq> None) (group_rows k ?D) of
                     x # xs \<Rightarrow> dim_item_id x | [] \<Rightarrow> None)
            \<and> smallest_mode (map dim_item_name (group_rows k ?D)) (dim_item_name r)
            \<and> smallest_mode (map dim_category (group_rows k ?D)) (dim_category r)
            \<and> smallest_mode (map dim_version (group_rows k ?D)) (dim_version r)"
  proof
    fix r assume "r \<in> set ?rows"
    then obtain k where k: "k \<in> set (group_keys ?D)" and r: "r = agg k (group_rows k ?D)"
      and i: "dim_item_id r \<noteq> None"
      unfolding rows by auto
    show "\<exists>k. dim_item_code r = Some k
            \<and> group_rows k ?D \<noteq> []
            \<and> dim_item_id r \<noteq> None
            \<and> dim_item_id r
                = (case filter (\<lambda>x. dim_item_id x \<noteq> None) (group_rows k ?D) of
                     x # xs \<Rightarrow> dim_item_id x | [] \<Rightarrow> None)
            \<and> smallest_mode (map dim_item_name (group_rows k ?D)) (dim_item_name r)
            \<and> smallest_mode (map dim_category (group_rows k ?D)) (dim_category r)
            \<and> smallest_mode (map dim_version (group_rows k ?D)) (dim_version r)"
      using i group_rows_nonempty [OF k] first_valid_eq [of dim_item_id "group_rows k ?D"]
      unfolding r by (intro exI [of _ k]) (simp add: canon_smallest_mode)
  qed
  have cover: "\<forall>k. (Some k \<in> dim_item_code ` set ?rows)
            = (\<exists>x \<in> set (group_rows k ?D). dim_item_id x \<noteq> None)"
  proof
    fix k
    have "(Some k \<in> dim_item_code ` set ?rows) = (Some k \<in> set (map dim_item_code ?rows))"
      by simp
    also have "\<dots> = (k \<in> set (group_keys ?D)
                       \<and> first_valid (map dim_item_id (group_rows k ?D)) \<noteq> None)"
      unfolding codes by auto
    also have "\<dots> = (\<exists>x \<in> set (group_rows k ?D). dim_item_id x \<noteq> None)"
      unfolding first_valid_None_iff set_group_keys group_rows_def by force
    finally show "(Some k \<in> dim_item_code ` set ?rows)
            = (\<exists>x \<in> set (group_rows k ?D). dim_item_id x \<noteq> None)" .
  qed
  show ?thesis
    by (intro conjI d each cover mode_warning [OF assms])
qed


theorem mode_strategy_witness:
  "item_attributes (strategy ''mode'') = ''mode''
   \<and> distinct (map dim_item_code (snd (load_item_dimension (strategy ''mode'') test_items)))
   \<and> load_item_dimension (strategy ''mode'') test_items
       = (None,
          [\<lparr>dim_item_code = Some ''A'', dim_item_id = Some 1, dim_item_name = Some ''ITEM A'',
             dim_category = Some ''Electronics'', dim_version = Some ''v1''\<rparr>,
           \<lparr>dim_item_code = Some ''B'', dim_item_id = Some 2, dim_item_name = Some ''item B'',
             dim_category = Some ''Home Appliances'', dim_version = Some ''v2''\<rparr>])"
proof -
  have h: "item_attributes (strategy ''mode'') = ''mode''" by (simp add: strategy_def)
  show ?thesis
    by (intro conjI h mode_strategy [OF h, of test_items, THEN conjunct1] mode_test_items)
qed


text \<open>
  Claim C5 at the same frame under the other strategy: the two rows of item code \<open>A\<close>
  differ in their name, \<open>drop_duplicates()\<close> compares whole rows, and both stay.
\<close>

theorem first_strategy_duplicate_codes:
  "map dim_item_code (snd (load_item_dimension (strategy ''first'') test_items))
     = [Some ''A'', Some ''A'', Some ''B'']"
  by code_simp

end

